theory Spec2Isabelle
  imports Complex_Main
begin

section \<open>Numbers\<close>

text \<open>
  A JavaScript number is modelled as a real number or one of the three non-finite
  values of IEEE 754. The special values follow the IEEE rules that the source relies
  on (a non-zero number divided by zero is an infinity, zero times an infinity is NaN,
  NaN is absorbing). Arithmetic on finite values is exact: rounding and overflow of
  binary64 are not modelled, and the two zeros are not told apart (a zero divisor counts
  as positive zero, which is what \<open>x - x\<close> gives).
\<close>

datatype jsnum = Fin real | PInf | NInf | NaN

fun is_fin :: "jsnum \<Rightarrow> bool" where
  "is_fin (Fin r) = True"
| "is_fin v = False"

fun jneg :: "jsnum \<Rightarrow> jsnum" where
  "jneg (Fin r) = Fin (- r)"
| "jneg PInf = NInf"
| "jneg NInf = PInf"
| "jneg NaN = NaN"

fun jadd :: "jsnum \<Rightarrow> jsnum \<Rightarrow> jsnum" where
  "jadd NaN v = NaN"
| "jadd v NaN = NaN"
| "jadd (Fin r) (Fin s) = Fin (r + s)"
| "jadd PInf NInf = NaN"
| "jadd NInf PInf = NaN"
| "jadd PInf v = PInf"
| "jadd v PInf = PInf"
| "jadd NInf v = NInf"
| "jadd v NInf = NInf"

definition jsub :: "jsnum \<Rightarrow> jsnum \<Rightarrow> jsnum" where
  "jsub v w = jadd v (jneg w)"

text \<open>
  The infinity whose sign is that of the real \<open>r\<close> (positive for zero).
\<close>

definition signed_inf :: "real \<Rightarrow> jsnum" where
  "signed_inf r = (if r < 0 then NInf else PInf)"

fun jmul :: "jsnum \<Rightarrow> jsnum \<Rightarrow> jsnum" where
  "jmul NaN v = NaN"
| "jmul v NaN = NaN"
| "jmul (Fin r) (Fin s) = Fin (r * s)"
| "jmul (Fin r) PInf = (if r = 0 then NaN else signed_inf r)"
| "jmul (Fin r) NInf = (if r = 0 then NaN else signed_inf (- r))"
| "jmul PInf (Fin s) = (if s = 0 then NaN else signed_inf s)"
| "jmul NInf (Fin s) = (if s = 0 then NaN else signed_inf (- s))"
| "jmul PInf PInf = PInf"
| "jmul NInf NInf = PInf"
| "jmul PInf NInf = NInf"
| "jmul NInf PInf = NInf"

fun jdiv :: "jsnum \<Rightarrow> jsnum \<Rightarrow> jsnum" where
  "jdiv NaN v = NaN"
| "jdiv v NaN = NaN"
| "jdiv (Fin r) (Fin s) =
     (if s = 0 then (if r = 0 then NaN else signed_inf r) else Fin (r / s))"
| "jdiv (Fin r) v = Fin 0"
| "jdiv PInf (Fin s) = signed_inf s"
| "jdiv NInf (Fin s) = jneg (signed_inf s)"
| "jdiv v w = NaN"

fun jabs :: "jsnum \<Rightarrow> jsnum" where
  "jabs (Fin r) = Fin \<bar>r\<bar>"
| "jabs PInf = PInf"
| "jabs NInf = PInf"
| "jabs NaN = NaN"

text \<open>
  \<open>Math.min\<close> and \<open>Math.max\<close> of two arguments: NaN if either is
  NaN.
\<close>

fun math_min :: "jsnum \<Rightarrow> jsnum \<Rightarrow> jsnum" where
  "math_min NaN v = NaN"
| "math_min v NaN = NaN"
| "math_min NInf v = NInf"
| "math_min v NInf = NInf"
| "math_min PInf v = v"
| "math_min v PInf = v"
| "math_min (Fin r) (Fin s) = Fin (min r s)"

fun math_max :: "jsnum \<Rightarrow> jsnum \<Rightarrow> jsnum" where
  "math_max NaN v = NaN"
| "math_max v NaN = NaN"
| "math_max PInf v = PInf"
| "math_max v PInf = PInf"
| "math_max NInf v = v"
| "math_max v NInf = v"
| "math_max (Fin r) (Fin s) = Fin (max r s)"

text \<open>
  The numbers that \<open>||\<close> and \<open>?:\<close> treat as false are zero and
  NaN.
\<close>

definition falsy_num :: "jsnum \<Rightarrow> bool" where
  "falsy_num v = (v = Fin 0 \<or> v = NaN)"

text \<open>
  \<open>toFixed(2)\<close>, as the number that the printed decimal denotes: the nearest multiple
  of 1/100, a tie going away from zero; from \<open>10^21\<close> on, and for the non-finite values,
  the number is printed as it is.
\<close>

fun toFixed2 :: "jsnum \<Rightarrow> jsnum" where
  "toFixed2 (Fin r) =
     (if 10 ^ 21 \<le> \<bar>r\<bar> then Fin r
      else Fin (sgn r * of_int \<lfloor>\<bar>r\<bar> * 100 + 1 / 2\<rfloor> / 100))"
| "toFixed2 v = v"

section \<open>The data model\<close>

text \<open>
  Modelled from the spec: the type declarations of \<open>./types\<close> (Point, Line, Rect, Circle
  and the scene) are not among the sources; the fields are those of the spec's data
  model, an optional field being an \<open>option\<close>.
\<close>

record Point =
  point_x :: jsnum
  point_y :: jsnum
  point_color :: "string option"
  point_label :: "string option"
  point_stroke :: "jsnum option"

record Line =
  line_points :: "Point list"

record Rect =
  rect_center :: Point
  rect_width :: jsnum
  rect_height :: jsnum
  rect_fill :: "string option"
  rect_stroke :: "string option"

record Circle =
  circle_center :: Point
  circle_radius :: jsnum
  circle_fill :: "string option"
  circle_stroke :: "string option"

datatype coordinateSystem = Math | Screen

record Graphics =
  points :: "Point list option"
  lines :: "Line list option"
  rects :: "Rect list option"
  circles :: "Circle list option"
  coordinateSystem :: coordinateSystem

record GraphicsObject =
  graphics :: Graphics

record Bounds =
  minX :: jsnum
  maxX :: jsnum
  minY :: jsnum
  maxY :: jsnum

text \<open>The object literal \<open>{ x: .., y: .. }\<close>.\<close>

definition xy :: "jsnum \<Rightarrow> jsnum \<Rightarrow> Point" where
  "xy vx vy = \<lparr>point_x = vx, point_y = vy, point_color = None, point_label = None,
     point_stroke = None\<rparr>"

text \<open>\<open>collection || []\<close>.\<close>

definition or_empty :: "'a list option \<Rightarrow> 'a list" where
  "or_empty c = (case c of None \<Rightarrow> [] | Some l \<Rightarrow> l)"

section \<open>The matrix library\<close>

text \<open>
  Modelled from the spec: the package \<open>transformation-matrix\<close> is imported by the source
  and is not part of it. A matrix has the six coefficients of the spec's AffineTransform
  (\<open>x' = a x + c y + e\<close>, \<open>y' = b x + d y + f\<close>); \<open>translate\<close> and \<open>scale\<close> build the
  elementary matrices, \<open>compose\<close> multiplies its arguments from the left, so that the
  last one is applied to a point first (the spec's step 4 of the matrix builder).
\<close>

record Matrix =
  mat_a :: jsnum
  mat_b :: jsnum
  mat_c :: jsnum
  mat_d :: jsnum
  mat_e :: jsnum
  mat_f :: jsnum

definition translate :: "jsnum \<Rightarrow> jsnum \<Rightarrow> Matrix" where
  "translate tx ty =
     \<lparr>mat_a = Fin 1, mat_b = Fin 0, mat_c = Fin 0, mat_d = Fin 1, mat_e = tx, mat_f = ty\<rparr>"

definition scale :: "jsnum \<Rightarrow> jsnum \<Rightarrow> Matrix" where
  "scale sx sy =
     \<lparr>mat_a = sx, mat_b = Fin 0, mat_c = Fin 0, mat_d = sy, mat_e = Fin 0, mat_f = Fin 0\<rparr>"

definition multiply :: "Matrix \<Rightarrow> Matrix \<Rightarrow> Matrix" where
  "multiply m1 m2 =
     \<lparr>mat_a = jadd (jmul (mat_a m1) (mat_a m2)) (jmul (mat_c m1) (mat_b m2)),
      mat_b = jadd (jmul (mat_b m1) (mat_a m2)) (jmul (mat_d m1) (mat_b m2)),
      mat_c = jadd (jmul (mat_a m1) (mat_c m2)) (jmul (mat_c m1) (mat_d m2)),
      mat_d = jadd (jmul (mat_b m1) (mat_c m2)) (jmul (mat_d m1) (mat_d m2)),
      mat_e = jadd (jadd (jmul (mat_a m1) (mat_e m2)) (jmul (mat_c m1) (mat_f m2))) (mat_e m1),
      mat_f = jadd (jadd (jmul (mat_b m1) (mat_e m2)) (jmul (mat_d m1) (mat_f m2))) (mat_f m1)\<rparr>"

text \<open>
  \<open>compose(m, ...ms)\<close>: one matrix is returned as it is, more are multiplied from the
  left. The source never calls it without an argument.
\<close>

fun compose :: "Matrix \<Rightarrow> Matrix list \<Rightarrow> Matrix" where
  "compose m [] = m"
| "compose m (m2 # ms) = compose (multiply m m2) ms"

definition applyToPoint :: "Matrix \<Rightarrow> Point \<Rightarrow> jsnum \<times> jsnum" where
  "applyToPoint matrix point =
     (jadd (jadd (jmul (mat_a matrix) (point_x point)) (jmul (mat_c matrix) (point_y point)))
        (mat_e matrix),
      jadd (jadd (jmul (mat_b matrix) (point_x point)) (jmul (mat_d matrix) (point_y point)))
        (mat_f matrix))"

section \<open>Bounds, projection matrix, projection\<close>

definition DEFAULT_SVG_SIZE :: jsnum where
  "DEFAULT_SVG_SIZE = Fin 640"

definition PADDING :: jsnum where
  "PADDING = Fin 40"

definition rect_corners :: "Rect \<Rightarrow> Point list" where
  "rect_corners rect =
     (let halfWidth = jdiv (rect_width rect) (Fin 2);
          halfHeight = jdiv (rect_height rect) (Fin 2);
          cx = point_x (rect_center rect);
          cy = point_y (rect_center rect)
      in [xy (jsub cx halfWidth) (jsub cy halfHeight),
          xy (jadd cx halfWidth) (jsub cy halfHeight),
          xy (jsub cx halfWidth) (jadd cy halfHeight),
          xy (jadd cx halfWidth) (jadd cy halfHeight)])"

definition circle_extremes :: "Circle \<Rightarrow> Point list" where
  "circle_extremes circle =
     (let cx = point_x (circle_center circle);
          cy = point_y (circle_center circle);
          r = circle_radius circle
      in [xy (jsub cx r) cy, xy (jadd cx r) cy, xy cx (jsub cy r), xy cx (jadd cy r)])"

text \<open>The array \<open>points\<close> that \<open>getBounds\<close> collects.\<close>

definition all_points :: "Graphics \<Rightarrow> Point list" where
  "all_points g =
     or_empty (points g)
     @ concat (map line_points (or_empty (lines g)))
     @ concat (map rect_corners (or_empty (rects g)))
     @ concat (map circle_extremes (or_empty (circles g)))"

definition extend_bounds :: "Bounds \<Rightarrow> Point \<Rightarrow> Bounds" where
  "extend_bounds bounds point =
     \<lparr>minX = math_min (minX bounds) (point_x point),
      maxX = math_max (maxX bounds) (point_x point),
      minY = math_min (minY bounds) (point_y point),
      maxY = math_max (maxY bounds) (point_y point)\<rparr>"

definition fallback_bounds :: Bounds where
  "fallback_bounds = \<lparr>minX = Fin (- 1), maxX = Fin 1, minY = Fin (- 1), maxY = Fin 1\<rparr>"

definition getBounds :: "Graphics \<Rightarrow> Bounds" where
  "getBounds g =
     (let pts = all_points g
      in if length pts = 0 then fallback_bounds
         else foldl extend_bounds \<lparr>minX = PInf, maxX = NInf, minY = PInf, maxY = NInf\<rparr> pts)"

definition bounds_width :: "Bounds \<Rightarrow> jsnum" where
  "bounds_width bounds = jsub (maxX bounds) (minX bounds)"

definition bounds_height :: "Bounds \<Rightarrow> jsnum" where
  "bounds_height bounds = jsub (maxY bounds) (minY bounds)"

text \<open>
  The local \<open>scale_factor\<close> of \<open>getProjectionMatrix\<close>.
\<close>

definition scale_factor :: "Bounds \<Rightarrow> jsnum" where
  "scale_factor bounds =
     math_min
       (jdiv (jsub DEFAULT_SVG_SIZE (jmul (Fin 2) PADDING)) (bounds_width bounds))
       (jdiv (jsub DEFAULT_SVG_SIZE (jmul (Fin 2) PADDING)) (bounds_height bounds))"

definition getProjectionMatrix :: "Bounds \<Rightarrow> coordinateSystem \<Rightarrow> Matrix" where
  "getProjectionMatrix bounds cs =
     (let width = bounds_width bounds;
          height = bounds_height bounds;
          k = scale_factor bounds
      in compose
           (translate (jdiv DEFAULT_SVG_SIZE (Fin 2)) (jdiv DEFAULT_SVG_SIZE (Fin 2)))
           [scale k (if cs = Screen then jneg k else k),
            translate (jneg (jadd (minX bounds) (jdiv width (Fin 2))))
                      (jneg (jadd (minY bounds) (jdiv height (Fin 2))))])"

definition projectPoint :: "Point \<Rightarrow> Matrix \<Rightarrow> Point" where
  "projectPoint point matrix =
     (let projected = applyToPoint matrix (xy (point_x point) (point_y point))
      in point\<lparr>point_x := fst projected, point_y := snd projected\<rparr>)"

section \<open>The document\<close>

text \<open>
  The node tree handed to the serializer. An attribute value is a string; one produced
  by \<open>toString()\<close> from a number is kept as that number (\<open>Num\<close>), and the \<open>points\<close>
  attribute of a polyline, the \<open>"x,y"\<close> pairs joined by spaces, as the list of the pairs.
  The text of the script is a template filled with \<open>JSON.stringify(matrix)\<close>; it is kept
  as the matrix it is filled with.
\<close>

datatype attr_value = Str string | Num jsnum | Pairs "(jsnum \<times> jsnum) list"

datatype node =
    Element string "(string \<times> attr_value) list" "node list"
  | Text string
  | ScriptText Matrix

datatype error = TypeError

fun node_children :: "node \<Rightarrow> node list" where
  "node_children (Element name attrs children) = children"
| "node_children n = []"

fun node_attributes :: "node \<Rightarrow> (string \<times> attr_value) list" where
  "node_attributes (Element name attrs children) = attrs"
| "node_attributes n = []"

definition attribute :: "string \<Rightarrow> node \<Rightarrow> attr_value option" where
  "attribute key n = map_of (node_attributes n) key"

text \<open>
  \<open>s || dflt\<close> on an optional string: absent and empty strings give the
  default.
\<close>

definition str_or :: "string option \<Rightarrow> string \<Rightarrow> string" where
  "str_or s dflt = (case s of None \<Rightarrow> dflt | Some v \<Rightarrow> if v = [] then dflt else v)"

text \<open>
  \<open>n || dflt\<close> on an optional number: absent, zero and NaN give the default.
\<close>

definition num_or :: "jsnum option \<Rightarrow> jsnum \<Rightarrow> jsnum" where
  "num_or n dflt = (case n of None \<Rightarrow> dflt | Some v \<Rightarrow> if falsy_num v then dflt else v)"

definition point_node :: "Matrix \<Rightarrow> Point \<Rightarrow> node" where
  "point_node matrix point =
     (let projected = projectPoint point matrix
      in Element ''g'' []
           (Element ''circle''
              [(''cx'', Num (point_x projected)),
               (''cy'', Num (point_y projected)),
               (''r'', Str ''3''),
               (''fill'', Str (str_or (point_color point) ''black''))] []
            # (case point_label point of
                 None \<Rightarrow> []
               | Some l \<Rightarrow>
                   if l = [] then []
                   else [Element ''text''
                           [(''x'', Num (jadd (point_x projected) (Fin 5))),
                            (''y'', Num (jsub (point_y projected) (Fin 5))),
                            (''font-family'', Str ''sans-serif''),
                            (''font-size'', Str ''12'')]
                           [Text l]])))"

text \<open>
  \<open>line.points[0]\<close> of a line without points is \<open>undefined\<close>, and reading its \<open>stroke\<close>
  throws a TypeError.
\<close>

definition line_node :: "Matrix \<Rightarrow> Line \<Rightarrow> error + node" where
  "line_node matrix line =
     (case line_points line of
        [] \<Rightarrow> Inl TypeError
      | p0 # ps \<Rightarrow>
          Inr (Element ''polyline''
                 [(''points'',
                     Pairs (map (\<lambda>p. (point_x p, point_y p))
                              (map (\<lambda>p. projectPoint p matrix) (line_points line)))),
                  (''fill'', Str ''none''),
                  (''stroke'', Str ''black''),
                  (''stroke-width'', Num (num_or (point_stroke p0) (Fin 1)))] []))"

definition rect_node :: "Matrix \<Rightarrow> Rect \<Rightarrow> node" where
  "rect_node matrix rect =
     (let projected = projectPoint (rect_center rect) matrix;
          scaledWidth = jmul (rect_width rect) (mat_a matrix);
          scaledHeight = jmul (rect_height rect) (mat_d matrix)
      in Element ''rect''
           [(''x'', Num (jsub (point_x projected) (jdiv scaledWidth (Fin 2)))),
            (''y'', Num (jsub (point_y projected) (jdiv scaledHeight (Fin 2)))),
            (''width'', Num scaledWidth),
            (''height'', Num (jabs scaledHeight)),
            (''fill'', Str (str_or (rect_fill rect) ''none'')),
            (''stroke'', Str (str_or (rect_stroke rect) ''black''))] [])"

definition circle_node :: "Matrix \<Rightarrow> Circle \<Rightarrow> node" where
  "circle_node matrix circle =
     (let projected = projectPoint (circle_center circle) matrix;
          scaledRadius = jmul (circle_radius circle) (jabs (mat_a matrix))
      in Element ''circle''
           [(''cx'', Num (point_x projected)),
            (''cy'', Num (point_y projected)),
            (''r'', Num scaledRadius),
            (''fill'', Str (str_or (circle_fill circle) ''none'')),
            (''stroke'', Str (str_or (circle_stroke circle) ''black''))] [])"

definition crosshair_node :: node where
  "crosshair_node =
     Element ''g'' [(''id'', Str ''crosshair''), (''style'', Str ''display: none'')]
       [Element ''line''
          [(''id'', Str ''crosshair-h''), (''y1'', Str ''0''), (''y2'', Num DEFAULT_SVG_SIZE),
           (''stroke'', Str ''#666''), (''stroke-width'', Str ''0.5'')] [],
        Element ''line''
          [(''id'', Str ''crosshair-v''), (''x1'', Str ''0''), (''x2'', Num DEFAULT_SVG_SIZE),
           (''stroke'', Str ''#666''), (''stroke-width'', Str ''0.5'')] [],
        Element ''text''
          [(''id'', Str ''coordinates''), (''font-family'', Str ''monospace''),
           (''font-size'', Str ''12''), (''fill'', Str ''#666'')]
          [Text []]]"

definition script_node :: "Matrix \<Rightarrow> node" where
  "script_node matrix = Element ''script'' [] [ScriptText matrix]"

text \<open>The nodes of the lines, or the first exception.\<close>

fun line_nodes :: "Matrix \<Rightarrow> Line list \<Rightarrow> error + node list" where
  "line_nodes matrix [] = Inr []"
| "line_nodes matrix (l # ls) =
     (case line_node matrix l of
        Inl err \<Rightarrow> Inl err
      | Inr n \<Rightarrow> (case line_nodes matrix ls of Inl err \<Rightarrow> Inl err | Inr ns \<Rightarrow> Inr (n # ns)))"

text \<open>The attributes of the root element.\<close>

definition svg_attributes :: "(string \<times> attr_value) list" where
  "svg_attributes =
     [(''width'', Num DEFAULT_SVG_SIZE),
      (''height'', Num DEFAULT_SVG_SIZE),
      (''viewBox'', Str ''0 0 640 640''),
      (''xmlns'', Str ''http://www.w3.org/2000/svg'')]"

text \<open>
  \<open>getSvgFromGraphicsObject\<close> up to the tree \<open>svgObject\<close>; the source returns
  \<open>pretty(stringify(svgObject))\<close>, the work of two imported packages.
\<close>

definition getSvgFromGraphicsObject :: "GraphicsObject \<Rightarrow> error + node" where
  "getSvgFromGraphicsObject graphicsObj =
     (let g = graphics graphicsObj;
          bounds = getBounds g;
          matrix = compose (getProjectionMatrix bounds (coordinateSystem g)) []
      in case line_nodes matrix (or_empty (lines g)) of
           Inl err \<Rightarrow> Inl err
         | Inr polylines \<Rightarrow>
             Inr (Element ''svg'' svg_attributes
                    (map (point_node matrix) (or_empty (points g))
                     @ polylines
                     @ map (rect_node matrix) (or_empty (rects g))
                     @ map (circle_node matrix) (or_empty (circles g))
                     @ [crosshair_node, script_node matrix])))"

section \<open>The interaction script\<close>

text \<open>
  The coordinates that the script shows for the canvas position \<open>(x, y)\<close>:
  \<open>realPoint\<close> as the script computes it from the matrix written into it, and the two
  numbers after \<open>toFixed(2)\<close>.
\<close>

definition realPoint :: "Matrix \<Rightarrow> jsnum \<Rightarrow> jsnum \<Rightarrow> jsnum \<times> jsnum" where
  "realPoint matrix x y =
     (let sx = mat_a matrix;
          sy = mat_d matrix;
          tx = mat_e matrix;
          ty = mat_f matrix
      in (jdiv (jsub x tx) sx, jdiv (jneg (jsub y ty)) sy))"

definition readout :: "Matrix \<Rightarrow> jsnum \<Rightarrow> jsnum \<Rightarrow> jsnum \<times> jsnum" where
  "readout matrix x y =
     (let rp = realPoint matrix x y in (toFixed2 (fst rp), toFixed2 (snd rp)))"

section \<open>The arithmetic of binary64\<close>

text \<open>
  The operations above compute with exact reals; they agree with the source wherever no
  operation rounds, as at the small integers of the example scenes below. For properties
  over all scenes the rounding is made explicit. An operation of binary64 on two finite
  numbers returns the rounding of its exact result, \<open>rnd\<close> below: the nearest
  representable number, or an infinity when the exact result is too large. On the
  non-finite values, and for a divisor that is zero, the operations are those above.
\<close>

type_synonym rounding = "real \<Rightarrow> jsnum"

text \<open>
  The comparison \<open><=\<close> of two numbers: false whenever NaN is involved.
\<close>

fun jle :: "jsnum \<Rightarrow> jsnum \<Rightarrow> bool" where
  "jle NaN v = False"
| "jle v NaN = False"
| "jle NInf v = True"
| "jle v PInf = True"
| "jle (Fin r) (Fin s) = (r \<le> s)"
| "jle v w = False"

fun fl_add :: "rounding \<Rightarrow> jsnum \<Rightarrow> jsnum \<Rightarrow> jsnum" where
  "fl_add rnd (Fin r) (Fin s) = rnd (r + s)"
| "fl_add rnd v w = jadd v w"

definition fl_sub :: "rounding \<Rightarrow> jsnum \<Rightarrow> jsnum \<Rightarrow> jsnum" where
  "fl_sub rnd v w = fl_add rnd v (jneg w)"

fun fl_mul :: "rounding \<Rightarrow> jsnum \<Rightarrow> jsnum \<Rightarrow> jsnum" where
  "fl_mul rnd (Fin r) (Fin s) = rnd (r * s)"
| "fl_mul rnd v w = jmul v w"

fun fl_div :: "rounding \<Rightarrow> jsnum \<Rightarrow> jsnum \<Rightarrow> jsnum" where
  "fl_div rnd (Fin r) (Fin s) = (if s = 0 then jdiv (Fin r) (Fin s) else rnd (r / s))"
| "fl_div rnd v w = jdiv v w"

text \<open>
  What is used of the rounding of binary64, with \<open>u = 2^-53\<close> and \<open>eta = 2^-1075\<close>: a
  result is never NaN; a finite result is off by at most \<open>u\<close> times the exact value plus
  \<open>eta\<close> (the relative error of the normal range, the absolute error of the subnormal
  range), and is itself representable; rounding commutes with negation and is monotone;
  the integers up to \<open>2^53\<close> are representable.
\<close>

definition rounding :: "real \<Rightarrow> real \<Rightarrow> rounding \<Rightarrow> bool" where
  "rounding u eta rnd \<longleftrightarrow>
     0 \<le> u \<and> 0 \<le> eta
     \<and> (\<forall>x. rnd x \<noteq> NaN)
     \<and> (\<forall>x t. rnd x = Fin t \<longrightarrow> \<bar>t - x\<bar> \<le> u * \<bar>x\<bar> + eta \<and> rnd t = Fin t)
     \<and> (\<forall>x. rnd (- x) = jneg (rnd x))
     \<and> (\<forall>x y. x \<le> y \<longrightarrow> jle (rnd x) (rnd y))
     \<and> (\<forall>n::int. \<bar>n\<bar> \<le> 2 ^ 53 \<longrightarrow> rnd (of_int n) = Fin (of_int n))"

text \<open>
  A rounding to try the properties on: to the nearest multiple of \<open>1/1024\<close>, a tie going
  away from zero, and to an infinity from \<open>2^60\<close> on.
\<close>

definition grid_rounding :: rounding where
  "grid_rounding x =
     (let m = \<lfloor>\<bar>x\<bar> * 1024 + 1 / 2\<rfloor>
      in if 2 ^ 70 \<le> m then signed_inf x else Fin (sgn x * of_int m / 1024))"

section \<open>The pipeline in binary64\<close>

text \<open>The functions of the source once more, every operation rounded.\<close>

definition rect_corners_fl :: "rounding \<Rightarrow> Rect \<Rightarrow> Point list" where
  "rect_corners_fl rnd rect =
     (let halfWidth = fl_div rnd (rect_width rect) (Fin 2);
          halfHeight = fl_div rnd (rect_height rect) (Fin 2);
          cx = point_x (rect_center rect);
          cy = point_y (rect_center rect)
      in [xy (fl_sub rnd cx halfWidth) (fl_sub rnd cy halfHeight),
          xy (fl_add rnd cx halfWidth) (fl_sub rnd cy halfHeight),
          xy (fl_sub rnd cx halfWidth) (fl_add rnd cy halfHeight),
          xy (fl_add rnd cx halfWidth) (fl_add rnd cy halfHeight)])"

definition circle_extremes_fl :: "rounding \<Rightarrow> Circle \<Rightarrow> Point list" where
  "circle_extremes_fl rnd circle =
     (let cx = point_x (circle_center circle);
          cy = point_y (circle_center circle);
          r = circle_radius circle
      in [xy (fl_sub rnd cx r) cy, xy (fl_add rnd cx r) cy,
          xy cx (fl_sub rnd cy r), xy cx (fl_add rnd cy r)])"

definition all_points_fl :: "rounding \<Rightarrow> Graphics \<Rightarrow> Point list" where
  "all_points_fl rnd g =
     or_empty (points g)
     @ concat (map line_points (or_empty (lines g)))
     @ concat (map (rect_corners_fl rnd) (or_empty (rects g)))
     @ concat (map (circle_extremes_fl rnd) (or_empty (circles g)))"

definition getBounds_fl :: "rounding \<Rightarrow> Graphics \<Rightarrow> Bounds" where
  "getBounds_fl rnd g =
     (let pts = all_points_fl rnd g
      in if length pts = 0 then fallback_bounds
         else foldl extend_bounds \<lparr>minX = PInf, maxX = NInf, minY = PInf, maxY = NInf\<rparr> pts)"

definition bounds_width_fl :: "rounding \<Rightarrow> Bounds \<Rightarrow> jsnum" where
  "bounds_width_fl rnd bounds = fl_sub rnd (maxX bounds) (minX bounds)"

definition bounds_height_fl :: "rounding \<Rightarrow> Bounds \<Rightarrow> jsnum" where
  "bounds_height_fl rnd bounds = fl_sub rnd (maxY bounds) (minY bounds)"

text \<open>\<open>DEFAULT_SVG_SIZE - 2 * PADDING\<close>.\<close>

definition inner_size_fl :: "rounding \<Rightarrow> jsnum" where
  "inner_size_fl rnd = fl_sub rnd DEFAULT_SVG_SIZE (fl_mul rnd (Fin 2) PADDING)"

definition scale_factor_fl :: "rounding \<Rightarrow> Bounds \<Rightarrow> jsnum" where
  "scale_factor_fl rnd bounds =
     math_min
       (fl_div rnd (inner_size_fl rnd) (bounds_width_fl rnd bounds))
       (fl_div rnd (inner_size_fl rnd) (bounds_height_fl rnd bounds))"

text \<open>\<open>bounds.minX + width / 2\<close> and \<open>bounds.minY + height / 2\<close>.\<close>

definition centre_x_fl :: "rounding \<Rightarrow> Bounds \<Rightarrow> jsnum" where
  "centre_x_fl rnd bounds =
     fl_add rnd (minX bounds) (fl_div rnd (bounds_width_fl rnd bounds) (Fin 2))"

definition centre_y_fl :: "rounding \<Rightarrow> Bounds \<Rightarrow> jsnum" where
  "centre_y_fl rnd bounds =
     fl_add rnd (minY bounds) (fl_div rnd (bounds_height_fl rnd bounds) (Fin 2))"

definition multiply_fl :: "rounding \<Rightarrow> Matrix \<Rightarrow> Matrix \<Rightarrow> Matrix" where
  "multiply_fl rnd m1 m2 =
     \<lparr>mat_a = fl_add rnd (fl_mul rnd (mat_a m1) (mat_a m2)) (fl_mul rnd (mat_c m1) (mat_b m2)),
      mat_b = fl_add rnd (fl_mul rnd (mat_b m1) (mat_a m2)) (fl_mul rnd (mat_d m1) (mat_b m2)),
      mat_c = fl_add rnd (fl_mul rnd (mat_a m1) (mat_c m2)) (fl_mul rnd (mat_c m1) (mat_d m2)),
      mat_d = fl_add rnd (fl_mul rnd (mat_b m1) (mat_c m2)) (fl_mul rnd (mat_d m1) (mat_d m2)),
      mat_e = fl_add rnd
                (fl_add rnd (fl_mul rnd (mat_a m1) (mat_e m2)) (fl_mul rnd (mat_c m1) (mat_f m2)))
                (mat_e m1),
      mat_f = fl_add rnd
                (fl_add rnd (fl_mul rnd (mat_b m1) (mat_e m2)) (fl_mul rnd (mat_d m1) (mat_f m2)))
                (mat_f m1)\<rparr>"

fun compose_fl :: "rounding \<Rightarrow> Matrix \<Rightarrow> Matrix list \<Rightarrow> Matrix" where
  "compose_fl rnd m [] = m"
| "compose_fl rnd m (m2 # ms) = compose_fl rnd (multiply_fl rnd m m2) ms"

definition getProjectionMatrix_fl :: "rounding \<Rightarrow> Bounds \<Rightarrow> coordinateSystem \<Rightarrow> Matrix" where
  "getProjectionMatrix_fl rnd bounds cs =
     (let k = scale_factor_fl rnd bounds
      in compose_fl rnd
           (translate (fl_div rnd DEFAULT_SVG_SIZE (Fin 2)) (fl_div rnd DEFAULT_SVG_SIZE (Fin 2)))
           [scale k (if cs = Screen then jneg k else k),
            translate (jneg (centre_x_fl rnd bounds)) (jneg (centre_y_fl rnd bounds))])"

definition applyToPoint_fl :: "rounding \<Rightarrow> Matrix \<Rightarrow> Point \<Rightarrow> jsnum \<times> jsnum" where
  "applyToPoint_fl rnd matrix point =
     (fl_add rnd
        (fl_add rnd (fl_mul rnd (mat_a matrix) (point_x point))
           (fl_mul rnd (mat_c matrix) (point_y point)))
        (mat_e matrix),
      fl_add rnd
        (fl_add rnd (fl_mul rnd (mat_b matrix) (point_x point))
           (fl_mul rnd (mat_d matrix) (point_y point)))
        (mat_f matrix))"

definition projectPoint_fl :: "rounding \<Rightarrow> Point \<Rightarrow> Matrix \<Rightarrow> Point" where
  "projectPoint_fl rnd point matrix =
     (let projected = applyToPoint_fl rnd matrix (xy (point_x point) (point_y point))
      in point\<lparr>point_x := fst projected, point_y := snd projected\<rparr>)"

definition scene_matrix_fl :: "rounding \<Rightarrow> Graphics \<Rightarrow> Matrix" where
  "scene_matrix_fl rnd g =
     compose_fl rnd (getProjectionMatrix_fl rnd (getBounds_fl rnd g) (coordinateSystem g)) []"

definition point_node_fl :: "rounding \<Rightarrow> Matrix \<Rightarrow> Point \<Rightarrow> node" where
  "point_node_fl rnd matrix point =
     (let projected = projectPoint_fl rnd point matrix
      in Element ''g'' []
           (Element ''circle''
              [(''cx'', Num (point_x projected)),
               (''cy'', Num (point_y projected)),
               (''r'', Str ''3''),
               (''fill'', Str (str_or (point_color point) ''black''))] []
            # (case point_label point of
                 None \<Rightarrow> []
               | Some l \<Rightarrow>
                   if l = [] then []
                   else [Element ''text''
                           [(''x'', Num (fl_add rnd (point_x projected) (Fin 5))),
                            (''y'', Num (fl_sub rnd (point_y projected) (Fin 5))),
                            (''font-family'', Str ''sans-serif''),
                            (''font-size'', Str ''12'')]
                           [Text l]])))"

definition line_node_fl :: "rounding \<Rightarrow> Matrix \<Rightarrow> Line \<Rightarrow> error + node" where
  "line_node_fl rnd matrix line =
     (case line_points line of
        [] \<Rightarrow> Inl TypeError
      | p0 # ps \<Rightarrow>
          Inr (Element ''polyline''
                 [(''points'',
                     Pairs (map (\<lambda>p. (point_x p, point_y p))
                              (map (\<lambda>p. projectPoint_fl rnd p matrix) (line_points line)))),
                  (''fill'', Str ''none''),
                  (''stroke'', Str ''black''),
                  (''stroke-width'', Num (num_or (point_stroke p0) (Fin 1)))] []))"

definition rect_node_fl :: "rounding \<Rightarrow> Matrix \<Rightarrow> Rect \<Rightarrow> node" where
  "rect_node_fl rnd matrix rect =
     (let projected = projectPoint_fl rnd (rect_center rect) matrix;
          scaledWidth = fl_mul rnd (rect_width rect) (mat_a matrix);
          scaledHeight = fl_mul rnd (rect_height rect) (mat_d matrix)
      in Element ''rect''
           [(''x'', Num (fl_sub rnd (point_x projected) (fl_div rnd scaledWidth (Fin 2)))),
            (''y'', Num (fl_sub rnd (point_y projected) (fl_div rnd scaledHeight (Fin 2)))),
            (''width'', Num scaledWidth),
            (''height'', Num (jabs scaledHeight)),
            (''fill'', Str (str_or (rect_fill rect) ''none'')),
            (''stroke'', Str (str_or (rect_stroke rect) ''black''))] [])"

definition circle_node_fl :: "rounding \<Rightarrow> Matrix \<Rightarrow> Circle \<Rightarrow> node" where
  "circle_node_fl rnd matrix circle =
     (let projected = projectPoint_fl rnd (circle_center circle) matrix;
          scaledRadius = fl_mul rnd (circle_radius circle) (jabs (mat_a matrix))
      in Element ''circle''
           [(''cx'', Num (point_x projected)),
            (''cy'', Num (point_y projected)),
            (''r'', Num scaledRadius),
            (''fill'', Str (str_or (circle_fill circle) ''none'')),
            (''stroke'', Str (str_or (circle_stroke circle) ''black''))] [])"

fun line_nodes_fl :: "rounding \<Rightarrow> Matrix \<Rightarrow> Line list \<Rightarrow> error + node list" where
  "line_nodes_fl rnd matrix [] = Inr []"
| "line_nodes_fl rnd matrix (l # ls) =
     (case line_node_fl rnd matrix l of
        Inl err \<Rightarrow> Inl err
      | Inr n \<Rightarrow>
          (case line_nodes_fl rnd matrix ls of Inl err \<Rightarrow> Inl err | Inr ns \<Rightarrow> Inr (n # ns)))"

definition getSvgFromGraphicsObject_fl :: "rounding \<Rightarrow> GraphicsObject \<Rightarrow> error + node" where
  "getSvgFromGraphicsObject_fl rnd graphicsObj =
     (let g = graphics graphicsObj;
          bounds = getBounds_fl rnd g;
          matrix = compose_fl rnd (getProjectionMatrix_fl rnd bounds (coordinateSystem g)) []
      in case line_nodes_fl rnd matrix (or_empty (lines g)) of
           Inl err \<Rightarrow> Inl err
         | Inr polylines \<Rightarrow>
             Inr (Element ''svg'' svg_attributes
                    (map (point_node_fl rnd matrix) (or_empty (points g))
                     @ polylines
                     @ map (rect_node_fl rnd matrix) (or_empty (rects g))
                     @ map (circle_node_fl rnd matrix) (or_empty (circles g))
                     @ [crosshair_node, script_node matrix])))"

section \<open>Notions used in the properties\<close>

text \<open>
  The matrix that \<open>getSvgFromGraphicsObject\<close> projects a scene with.
\<close>

definition scene_matrix :: "Graphics \<Rightarrow> Matrix" where
  "scene_matrix g = compose (getProjectionMatrix (getBounds g) (coordinateSystem g)) []"

text \<open>The children of the root of the document; none when the call throws.\<close>

definition svg_children :: "error + node \<Rightarrow> node list" where
  "svg_children res = (case res of Inl err \<Rightarrow> [] | Inr doc \<Rightarrow> node_children doc)"

text \<open>A canvas coordinate inside the padded canvas \<open>[P, S - P]\<close>.\<close>

definition in_padded_canvas :: "jsnum \<Rightarrow> bool" where
  "in_padded_canvas v = (jle PADDING v \<and> jle v (jsub DEFAULT_SVG_SIZE PADDING))"

definition fin_point :: "Point \<Rightarrow> bool" where
  "fin_point p = (is_fin (point_x p) \<and> is_fin (point_y p))"

definition bounds_corners :: "Bounds \<Rightarrow> Point list" where
  "bounds_corners b =
     [xy (minX b) (minY b), xy (maxX b) (minY b), xy (minX b) (maxY b), xy (maxX b) (maxY b)]"

text \<open>Every line has a point, as the data model asks.\<close>

definition lines_nonempty :: "Graphics \<Rightarrow> bool" where
  "lines_nonempty g = list_all (\<lambda>l. line_points l \<noteq> []) (or_empty (lines g))"

text \<open>All four collections are missing or empty.\<close>

definition no_primitives :: "Graphics \<Rightarrow> bool" where
  "no_primitives g =
     (or_empty (points g) = [] \<and> or_empty (lines g) = [] \<and> or_empty (rects g) = []
      \<and> or_empty (circles g) = [])"

text \<open>The real number that a finite number is; 0 for the others.\<close>

fun fin_value :: "jsnum \<Rightarrow> real" where
  "fin_value (Fin r) = r"
| "fin_value v = 0"

text \<open>The matrix whose six coefficients are NaN.\<close>

definition nan_matrix :: Matrix where
  "nan_matrix = \<lparr>mat_a = NaN, mat_b = NaN, mat_c = NaN, mat_d = NaN, mat_e = NaN, mat_f = NaN\<rparr>"

text \<open>A node with NaN in an attribute of its own or of a descendant.\<close>

fun nan_attr :: "attr_value \<Rightarrow> bool" where
  "nan_attr (Str s) = False"
| "nan_attr (Num v) = (v = NaN)"
| "nan_attr (Pairs ps) = list_ex (\<lambda>q. fst q = NaN \<or> snd q = NaN) ps"

fun has_nan :: "node \<Rightarrow> bool" where
  "has_nan (Element name attrs children) =
     (list_ex (\<lambda>kv. nan_attr (snd kv)) attrs \<or> list_ex has_nan children)"
| "has_nan (Text s) = False"
| "has_nan (ScriptText m) = False"

text \<open>The largest absolute value among the four coordinates of a box.\<close>

definition bounds_magnitude :: "Bounds \<Rightarrow> real" where
  "bounds_magnitude b =
     max (max \<bar>fin_value (minX b)\<bar> \<bar>fin_value (maxX b)\<bar>)
         (max \<bar>fin_value (minY b)\<bar> \<bar>fin_value (maxY b)\<bar>)"

text \<open>
  The tolerance of the fit: with unit roundoff \<open>u\<close> and absolute error \<open>eta\<close>, for scale
  factor \<open>k\<close> and coordinates of magnitude at most \<open>M\<close>.
\<close>

definition fit_tolerance :: "real \<Rightarrow> real \<Rightarrow> real \<Rightarrow> real \<Rightarrow> real" where
  "fit_tolerance u eta k M = 16 * (u * (k * M + 80) + eta * (k + M + 1))"

text \<open>A canvas coordinate inside \<open>[P - t, S - P + t]\<close>.\<close>

definition near_padded_canvas :: "real \<Rightarrow> jsnum \<Rightarrow> bool" where
  "near_padded_canvas t v = (case v of Fin r \<Rightarrow> 40 - t \<le> r \<and> r \<le> 600 + t | _ \<Rightarrow> False)"

text \<open>
  The tolerance of the mirror symmetry, for scale factor \<open>k\<close>, the ordinate \<open>y\<close> of the
  point and the ordinate \<open>c\<close> of the centre of the box.
\<close>

definition mirror_tolerance :: "real \<Rightarrow> real \<Rightarrow> real \<Rightarrow> real \<Rightarrow> real \<Rightarrow> real" where
  "mirror_tolerance u eta k y c = 12 * u * (\<bar>k * y\<bar> + \<bar>k * c\<bar> + 160 + eta) + 4 * eta"

section \<open>Example scenes\<close>

definition scene :: "Point list option \<Rightarrow> Line list option \<Rightarrow> Rect list option \<Rightarrow>
    Circle list option \<Rightarrow> coordinateSystem \<Rightarrow> GraphicsObject" where
  "scene ps ls rs cs sys =
     \<lparr>graphics = \<lparr>points = ps, lines = ls, rects = rs, circles = cs, coordinateSystem = sys\<rparr>\<rparr>"

text \<open>The single point \<open>{x: 0, y: 0}\<close>.\<close>

definition single_point_scene :: "coordinateSystem \<Rightarrow> GraphicsObject" where
  "single_point_scene sys = scene (Some [xy (Fin 0) (Fin 0)]) None None None sys"

text \<open>The points \<open>{x: 0, y: 0}\<close> and \<open>{x: 2, y: 2}\<close>.\<close>

definition two_points_scene :: "coordinateSystem \<Rightarrow> GraphicsObject" where
  "two_points_scene sys = scene (Some [xy (Fin 0) (Fin 0), xy (Fin 2) (Fin 2)]) None None None sys"

text \<open>
  The points \<open>{x: 0, y: 0}\<close> and \<open>{x: 0, y: 2}\<close>: zero width,
  height 2.
\<close>

definition vertical_scene :: "coordinateSystem \<Rightarrow> GraphicsObject" where
  "vertical_scene sys = scene (Some [xy (Fin 0) (Fin 0), xy (Fin 0) (Fin 2)]) None None None sys"

text \<open>
  The points \<open>{x: 0, y: 0}\<close> and \<open>{x: 3, y: 1}\<close>: the ratio \<open>560 / 3\<close> is rounded.
\<close>

definition wide_scene :: "coordinateSystem \<Rightarrow> GraphicsObject" where
  "wide_scene sys = scene (Some [xy (Fin 0) (Fin 0), xy (Fin 3) (Fin 1)]) None None None sys"

text \<open>
  One line from \<open>{x: 0, y: 0, stroke: s}\<close> to \<open>{x: 1, y: 1}\<close>.
\<close>

definition stroke_line :: "jsnum \<Rightarrow> Line" where
  "stroke_line s = \<lparr>line_points = [(xy (Fin 0) (Fin 0))\<lparr>point_stroke := Some s\<rparr>, xy (Fin 1) (Fin 1)]\<rparr>"

definition stroke_scene :: "jsnum \<Rightarrow> GraphicsObject" where
  "stroke_scene s = scene None (Some [stroke_line s]) None None Math"

text \<open>One rect \<open>{center: {x: 0, y: 0}, width: 2, height: 2}\<close>.\<close>

definition square :: Rect where
  "square = \<lparr>rect_center = xy (Fin 0) (Fin 0), rect_width = Fin 2, rect_height = Fin 2,
     rect_fill = None, rect_stroke = None\<rparr>"

definition square_scene :: "coordinateSystem \<Rightarrow> GraphicsObject" where
  "square_scene sys = scene None None (Some [square]) None sys"

text \<open>Only an empty \<open>lines\<close> array.\<close>

definition empty_lines_scene :: GraphicsObject where
  "empty_lines_scene = scene None (Some []) None None Math"

text \<open>
  A point with the empty string as its colour, and a line whose first point has
  stroke 0.
\<close>

definition falsy_scene :: GraphicsObject where
  "falsy_scene =
     scene (Some [(xy (Fin 0) (Fin 0))\<lparr>point_color := Some []\<rparr>]) (Some [stroke_line (Fin 0)])
       None None Math"

section \<open>Evaluation\<close>

lemmas scene_defs = scene_def single_point_scene_def two_points_scene_def vertical_scene_def
  wide_scene_def
  stroke_line_def stroke_scene_def square_def square_scene_def empty_lines_scene_def falsy_scene_def

lemmas bounds_defs = getBounds_def all_points_def or_empty_def xy_def extend_bounds_def
  rect_corners_def circle_extremes_def fallback_bounds_def

lemmas matrix_defs = getProjectionMatrix_def scale_factor_def bounds_width_def bounds_height_def
  jsub_def DEFAULT_SVG_SIZE_def PADDING_def translate_def scale_def multiply_def signed_inf_def
  scene_matrix_def Let_def

lemmas project_defs = projectPoint_def applyToPoint_def

lemmas node_defs = getSvgFromGraphicsObject_def point_node_def line_node_def rect_node_def
  circle_node_def str_or_def num_or_def falsy_num_def svg_children_def attribute_def
  svg_attributes_def

lemma is_fin_iff: "is_fin v \<longleftrightarrow> (\<exists>r. v = Fin r)"
  by (cases v) simp_all

section \<open>The bounding box of a finite scene\<close>

text \<open>Points and boxes with finite coordinates: one step of the reduction.\<close>

lemma fin_point_iff:
  "fin_point p \<longleftrightarrow> (\<exists>px py. point_x p = Fin px \<and> point_y p = Fin py)"
  by (simp add: fin_point_def is_fin_iff)

lemma extend_bounds_Fin:
  assumes "point_x p = Fin px" and "point_y p = Fin py"
  shows "extend_bounds \<lparr>minX = Fin x0, maxX = Fin x1, minY = Fin y0, maxY = Fin y1\<rparr> p =
           \<lparr>minX = Fin (min x0 px), maxX = Fin (max x1 px),
            minY = Fin (min y0 py), maxY = Fin (max y1 py)\<rparr>"
  using assms by (simp add: extend_bounds_def)

lemma extend_bounds_init:
  assumes "point_x p = Fin px" and "point_y p = Fin py"
  shows "extend_bounds \<lparr>minX = PInf, maxX = NInf, minY = PInf, maxY = NInf\<rparr> p =
           \<lparr>minX = Fin px, maxX = Fin px, minY = Fin py, maxY = Fin py\<rparr>"
  using assms by (simp add: extend_bounds_def)

lemma foldl_extend_bounds:
  assumes "\<forall>p\<in>set ps. fin_point p"
  shows "\<exists>x0' x1' y0' y1'.
           foldl extend_bounds \<lparr>minX = Fin x0, maxX = Fin x1, minY = Fin y0, maxY = Fin y1\<rparr> ps =
             \<lparr>minX = Fin x0', maxX = Fin x1', minY = Fin y0', maxY = Fin y1'\<rparr>
           \<and> x0' \<le> x0 \<and> x1 \<le> x1' \<and> y0' \<le> y0 \<and> y1 \<le> y1'
           \<and> (\<forall>p\<in>set ps. \<exists>px py. point_x p = Fin px \<and> point_y p = Fin py
                  \<and> x0' \<le> px \<and> px \<le> x1' \<and> y0' \<le> py \<and> py \<le> y1')"
  using assms
proof (induction ps arbitrary: x0 x1 y0 y1)
  case Nil
  then show ?case by simp
next
  case (Cons p ps)
  from Cons.prems obtain px py where p: "point_x p = Fin px" "point_y p = Fin py"
    by (auto simp: fin_point_iff)
  from Cons.prems have rest: "\<forall>q\<in>set ps. fin_point q" by simp
  from Cons.IH [OF rest, of "min x0 px" "max x1 px" "min y0 py" "max y1 py"]
  obtain x0' x1' y0' y1' where
    f: "foldl extend_bounds
          \<lparr>minX = Fin (min x0 px), maxX = Fin (max x1 px),
           minY = Fin (min y0 py), maxY = Fin (max y1 py)\<rparr> ps =
        \<lparr>minX = Fin x0', maxX = Fin x1', minY = Fin y0', maxY = Fin y1'\<rparr>"
    and le: "x0' \<le> min x0 px" "max x1 px \<le> x1'" "y0' \<le> min y0 py" "max y1 py \<le> y1'"
    and inside: "\<forall>q\<in>set ps. \<exists>qx qy. point_x q = Fin qx \<and> point_y q = Fin qy
                  \<and> x0' \<le> qx \<and> qx \<le> x1' \<and> y0' \<le> qy \<and> qy \<le> y1'"
    by blast
  have "foldl extend_bounds \<lparr>minX = Fin x0, maxX = Fin x1, minY = Fin y0, maxY = Fin y1\<rparr> (p # ps) =
          \<lparr>minX = Fin x0', maxX = Fin x1', minY = Fin y0', maxY = Fin y1'\<rparr>"
    using f by (simp add: extend_bounds_Fin [OF p])
  moreover have "x0' \<le> x0" "x1 \<le> x1'" "y0' \<le> y0" "y1 \<le> y1'"
    using le by simp_all
  moreover have "\<exists>qx qy. point_x p = Fin qx \<and> point_y p = Fin qy
                  \<and> x0' \<le> qx \<and> qx \<le> x1' \<and> y0' \<le> qy \<and> qy \<le> y1'"
    using p le by simp
  ultimately show ?case using inside by auto
qed

section \<open>The children of the document\<close>

lemma line_node_Cons:
  "line_points l = p0 # ps \<Longrightarrow>
     \<exists>n. line_node m l = Inr n
       \<and> attribute ''stroke-width'' n = Some (Num (num_or (point_stroke p0) (Fin 1)))"
  by (simp add: line_node_def attribute_def)

lemma line_nodes_total:
  assumes "list_all (\<lambda>l. line_points l \<noteq> []) ls"
  shows "\<exists>ns. line_nodes m ls = Inr ns \<and> length ns = length ls
           \<and> (\<forall>j<length ls. line_node m (ls ! j) = Inr (ns ! j))"
  using assms
proof (induction ls)
  case Nil
  then show ?case by simp
next
  case (Cons l ls)
  then obtain ns where ns: "line_nodes m ls = Inr ns" "length ns = length ls"
    "\<forall>j<length ls. line_node m (ls ! j) = Inr (ns ! j)"
    by auto
  from Cons.prems obtain p0 ps where "line_points l = p0 # ps"
    by (cases "line_points l") auto
  from line_node_Cons [OF this] obtain n where n: "line_node m l = Inr n" by blast
  have "line_nodes m (l # ls) = Inr (n # ns)" using n ns(1) by simp
  moreover have "\<forall>j<length (l # ls). line_node m ((l # ls) ! j) = Inr ((n # ns) ! j)"
    using n ns(3) by (auto simp: nth_Cons split: nat.splits)
  ultimately show ?case using ns(2) by auto
qed

text \<open>The document of a scene whose lines all have a point.\<close>

lemma document_structure:
  assumes "lines_nonempty (graphics go)"
  shows "\<exists>ns. length ns = length (or_empty (lines (graphics go)))
           \<and> (\<forall>j<length ns.
                 line_node (scene_matrix (graphics go)) (or_empty (lines (graphics go)) ! j) =
                   Inr (ns ! j))
           \<and> getSvgFromGraphicsObject go =
               Inr (Element ''svg'' svg_attributes
                      (map (point_node (scene_matrix (graphics go))) (or_empty (points (graphics go)))
                       @ ns
                       @ map (rect_node (scene_matrix (graphics go))) (or_empty (rects (graphics go)))
                       @ map (circle_node (scene_matrix (graphics go)))
                           (or_empty (circles (graphics go)))
                       @ [crosshair_node, script_node (scene_matrix (graphics go))]))"
proof -
  from assms line_nodes_total [of "or_empty (lines (graphics go))" "scene_matrix (graphics go)"]
  obtain ns where ns: "line_nodes (scene_matrix (graphics go)) (or_empty (lines (graphics go))) = Inr ns"
    "length ns = length (or_empty (lines (graphics go)))"
    "\<forall>j<length (or_empty (lines (graphics go))).
        line_node (scene_matrix (graphics go)) (or_empty (lines (graphics go)) ! j) = Inr (ns ! j)"
    unfolding lines_nonempty_def by blast
  have "getSvgFromGraphicsObject go =
               Inr (Element ''svg'' svg_attributes
                      (map (point_node (scene_matrix (graphics go))) (or_empty (points (graphics go)))
                       @ ns
                       @ map (rect_node (scene_matrix (graphics go))) (or_empty (rects (graphics go)))
                       @ map (circle_node (scene_matrix (graphics go)))
                           (or_empty (circles (graphics go)))
                       @ [crosshair_node, script_node (scene_matrix (graphics go))]))"
    using ns(1) by (simp add: getSvgFromGraphicsObject_def Let_def scene_matrix_def)
  with ns(2,3) show ?thesis by auto
qed

text \<open>
  C3, as the code has it. For every scene in which each line has a point, the call returns
  a document, and the \<open>stroke-width\<close> of the polyline of each line is the resolved
  stroke of the line (the stroke of its first point, 1 when that is absent or falsy) as
  it is: the scale factor of the projection is not applied to it.
\<close>

theorem stroke_width_unscaled:
  assumes "lines_nonempty (graphics go)"
  shows "\<exists>doc. getSvgFromGraphicsObject go = Inr doc
           \<and> (\<forall>j<length (or_empty (lines (graphics go))).
                 attribute ''stroke-width''
                   (node_children doc ! (length (or_empty (points (graphics go))) + j)) =
                 Some (Num (num_or
                   (point_stroke (hd (line_points (or_empty (lines (graphics go)) ! j))))
                   (Fin 1))))"
proof -
  let ?ls = "or_empty (lines (graphics go))"
  let ?m = "scene_matrix (graphics go)"
  from document_structure [OF assms] obtain ns doc where
    len: "length ns = length ?ls"
    and nodes: "\<forall>j<length ns. line_node ?m (?ls ! j) = Inr (ns ! j)"
    and doc: "getSvgFromGraphicsObject go = Inr doc"
    and ch: "node_children doc =
               map (point_node ?m) (or_empty (points (graphics go))) @ ns
               @ map (rect_node ?m) (or_empty (rects (graphics go)))
               @ map (circle_node ?m) (or_empty (circles (graphics go)))
               @ [crosshair_node, script_node ?m]"
    by fastforce
  have "attribute ''stroke-width''
          (node_children doc ! (length (or_empty (points (graphics go))) + j)) =
        Some (Num (num_or (point_stroke (hd (line_points (?ls ! j)))) (Fin 1)))"
    if j: "j < length ?ls" for j
  proof -
    from assms j have "line_points (?ls ! j) \<noteq> []"
      by (simp add: lines_nonempty_def list_all_length)
    then obtain p0 ps where l: "line_points (?ls ! j) = p0 # ps"
      by (cases "line_points (?ls ! j)") auto
    from line_node_Cons [OF l, of ?m] nodes j len
    have "attribute ''stroke-width'' (ns ! j) = Some (Num (num_or (point_stroke p0) (Fin 1)))"
      by auto
    moreover have "node_children doc ! (length (or_empty (points (graphics go))) + j) = ns ! j"
      using j len by (simp add: ch nth_append)
    ultimately show ?thesis by (simp add: l)
  qed
  with doc show ?thesis by blast
qed

text \<open>
  A line whose first point has stroke 2 is drawn with \<open>stroke-width\<close> 2.
\<close>

theorem stroke_width_unscaled_witness:
  "lines_nonempty (graphics (stroke_scene (Fin 2)))
   \<and> (\<exists>doc. getSvgFromGraphicsObject (stroke_scene (Fin 2)) = Inr doc
         \<and> attribute ''stroke-width'' (node_children doc ! 0) = Some (Num (Fin 2)))"
proof -
  have h: "lines_nonempty (graphics (stroke_scene (Fin 2)))"
    by (simp add: scene_defs lines_nonempty_def or_empty_def)
  from stroke_width_unscaled [OF h] h show ?thesis
    by (simp add: scene_defs or_empty_def num_or_def falsy_num_def)
qed

text \<open>
  C3 as stated fails at that line: the scale factor of its scene is 560, and the
  \<open>stroke-width\<close> is not 2 times 560.
\<close>

theorem stroke_width_counterexample:
  "attribute ''stroke-width'' (svg_children (getSvgFromGraphicsObject (stroke_scene (Fin 2))) ! 0)
     \<noteq> Some (Num (jmul (Fin 2) (scale_factor (getBounds (graphics (stroke_scene (Fin 2)))))))"
  by (simp add: scene_defs bounds_defs matrix_defs project_defs node_defs)

text \<open>
  C10. In the document of a scene (each line having a point), a line whose first point has
  stroke exactly 0 is rendered with \<open>stroke-width\<close> 1, the default, and a point whose
  colour is the empty string with \<open>fill\<close> \<open>"black"\<close>.
\<close>

theorem falsy_defaults:
  assumes "lines_nonempty (graphics go)"
  shows "\<exists>doc. getSvgFromGraphicsObject go = Inr doc
           \<and> (\<forall>j<length (or_empty (lines (graphics go))).
                 point_stroke (hd (line_points (or_empty (lines (graphics go)) ! j))) = Some (Fin 0)
                 \<longrightarrow> attribute ''stroke-width''
                       (node_children doc ! (length (or_empty (points (graphics go))) + j)) =
                     Some (Num (Fin 1)))
           \<and> (\<forall>i<length (or_empty (points (graphics go))).
                 point_color (or_empty (points (graphics go)) ! i) = Some []
                 \<longrightarrow> attribute ''fill'' (hd (node_children (node_children doc ! i))) =
                     Some (Str ''black''))"
proof -
  let ?ls = "or_empty (lines (graphics go))"
  let ?pts = "or_empty (points (graphics go))"
  let ?m = "scene_matrix (graphics go)"
  from document_structure [OF assms] obtain ns doc where
    len: "length ns = length ?ls"
    and nodes: "\<forall>j<length ns. line_node ?m (?ls ! j) = Inr (ns ! j)"
    and doc: "getSvgFromGraphicsObject go = Inr doc"
    and ch: "node_children doc =
               map (point_node ?m) ?pts @ ns
               @ map (rect_node ?m) (or_empty (rects (graphics go)))
               @ map (circle_node ?m) (or_empty (circles (graphics go)))
               @ [crosshair_node, script_node ?m]"
    by fastforce
  have lines: "attribute ''stroke-width'' (node_children doc ! (length ?pts + j)) = Some (Num (Fin 1))"
    if j: "j < length ?ls" and z: "point_stroke (hd (line_points (?ls ! j))) = Some (Fin 0)" for j
  proof -
    from assms j have "line_points (?ls ! j) \<noteq> []"
      by (simp add: lines_nonempty_def list_all_length)
    then obtain p0 ps where l: "line_points (?ls ! j) = p0 # ps"
      by (cases "line_points (?ls ! j)") auto
    from line_node_Cons [OF l, of ?m] nodes j len
    have "attribute ''stroke-width'' (ns ! j) = Some (Num (num_or (point_stroke p0) (Fin 1)))"
      by auto
    moreover have "node_children doc ! (length ?pts + j) = ns ! j"
      using j len by (simp add: ch nth_append)
    ultimately show ?thesis using z by (simp add: l num_or_def falsy_num_def)
  qed
  have pts: "attribute ''fill'' (hd (node_children (node_children doc ! i))) = Some (Str ''black'')"
    if i: "i < length ?pts" and c: "point_color (?pts ! i) = Some []" for i
  proof -
    have "node_children doc ! i = point_node ?m (?pts ! i)"
      using i by (simp add: ch nth_append)
    then show ?thesis using c by (simp add: point_node_def Let_def attribute_def str_or_def)
  qed
  from doc lines pts show ?thesis by blast
qed

text \<open>
  A scene with a point of colour \<open>""\<close> and a line whose first point has
  stroke 0.
\<close>

theorem falsy_defaults_witness:
  "lines_nonempty (graphics falsy_scene)
   \<and> (\<exists>doc. getSvgFromGraphicsObject falsy_scene = Inr doc
         \<and> attribute ''stroke-width'' (node_children doc ! 1) = Some (Num (Fin 1))
         \<and> attribute ''fill'' (hd (node_children (node_children doc ! 0))) = Some (Str ''black''))"
proof -
  have h: "lines_nonempty (graphics falsy_scene)"
    by (simp add: scene_defs lines_nonempty_def or_empty_def)
  from falsy_defaults [OF h] h show ?thesis
    by (simp add: scene_defs or_empty_def xy_def)
qed

text \<open>
  For a scene whose lines all have a point, the combined point set is empty exactly when
  the four collections are missing or empty. A line without points is outside the data
  model; the call throws on it.
\<close>

lemma rect_corners_nonempty: "rect_corners r \<noteq> []"
  by (simp add: rect_corners_def Let_def)

lemma circle_extremes_nonempty: "circle_extremes c \<noteq> []"
  by (simp add: circle_extremes_def Let_def)

lemma no_primitives_iff:
  "no_primitives g \<longleftrightarrow> all_points g = [] \<and> lines_nonempty g"
proof
  assume "no_primitives g"
  then show "all_points g = [] \<and> lines_nonempty g"
    by (simp add: no_primitives_def all_points_def lines_nonempty_def)
next
  assume a: "all_points g = [] \<and> lines_nonempty g"
  then have p: "or_empty (points g) = []"
    and l: "\<forall>l\<in>set (or_empty (lines g)). line_points l = []"
    and r: "\<forall>r\<in>set (or_empty (rects g)). rect_corners r = []"
    and c: "\<forall>c\<in>set (or_empty (circles g)). circle_extremes c = []"
    by (simp_all add: all_points_def)
  from l a have "or_empty (lines g) = []"
    by (cases "or_empty (lines g)") (auto simp: lines_nonempty_def)
  moreover from r have "or_empty (rects g) = []"
    by (cases "or_empty (rects g)") (auto simp: rect_corners_nonempty)
  moreover from c have "or_empty (circles g) = []"
    by (cases "or_empty (circles g)") (auto simp: circle_extremes_nonempty)
  ultimately show "no_primitives g" using p by (simp add: no_primitives_def)
qed

lemma line_without_points_throws:
  "getSvgFromGraphicsObject (scene None (Some [\<lparr>line_points = []\<rparr>]) None None Math) =
     Inl TypeError"
  by (simp add: getSvgFromGraphicsObject_def Let_def scene_def or_empty_def line_node_def)



section \<open>The inverse of the script\<close>

text \<open>
  The coordinates that the script computes at the projection of a point: the horizontal
  one is that of the point, the vertical one its negation, whatever the sign of \<open>d\<close>.
\<close>

lemma realPoint_of_projection:
  assumes "m = \<lparr>mat_a = Fin k, mat_b = Fin 0, mat_c = Fin 0, mat_d = Fin k',
                 mat_e = Fin tx, mat_f = Fin ty\<rparr>"
    and "k \<noteq> 0" and "k' \<noteq> 0"
    and "point_x p = Fin px" and "point_y p = Fin py"
  shows "realPoint m (point_x (projectPoint p m)) (point_y (projectPoint p m)) = (Fin px, Fin (- py))"
  using assms
  by (simp add: realPoint_def Let_def projectPoint_def applyToPoint_def xy_def jsub_def)

text \<open>
  C1, at the scene of the points \<open>(0, 0)\<close> and \<open>(2, 2)\<close>. The point \<open>(2, 2)\<close> is projected
  to \<open>(600, 600)\<close> under \<open>"math"\<close> and to \<open>(600, 40)\<close> under \<open>"screen"\<close>, and at either
  position the script shows \<open>(2.00, -2.00)\<close>: the inverse of the script does not recover
  the vertical coordinate.
\<close>

theorem readout_negates_y:
  "projectPoint (xy (Fin 2) (Fin 2)) (scene_matrix (graphics (two_points_scene Math))) =
     xy (Fin 600) (Fin 600)
   \<and> readout (scene_matrix (graphics (two_points_scene Math))) (Fin 600) (Fin 600) =
       (Fin 2, Fin (- 2))
   \<and> projectPoint (xy (Fin 2) (Fin 2)) (scene_matrix (graphics (two_points_scene Screen))) =
       xy (Fin 600) (Fin 40)
   \<and> readout (scene_matrix (graphics (two_points_scene Screen))) (Fin 600) (Fin 40) =
       (Fin 2, Fin (- 2))"
  by (simp add: scene_defs bounds_defs matrix_defs project_defs realPoint_def readout_def)

section \<open>The anchoring of rects\<close>

text \<open>
  The rect element and the projected centre, for a matrix of finite coefficients: \<open>y\<close>
  plus half the \<open>height\<close> is the vertical coordinate of the centre when the scaled height
  \<open>rect.height * d\<close> is not negative, and differs from it when the scaled height is
  negative.
\<close>

lemma rect_anchored_nonneg:
  assumes "m = \<lparr>mat_a = Fin k, mat_b = Fin 0, mat_c = Fin 0, mat_d = Fin k',
                 mat_e = Fin tx, mat_f = Fin ty\<rparr>"
    and "point_x (rect_center r) = Fin cx" and "point_y (rect_center r) = Fin cy"
    and "rect_height r = Fin h" and "0 \<le> h * k'"
  shows "\<exists>top height.
           attribute ''y'' (rect_node m r) = Some (Num top)
         \<and> attribute ''height'' (rect_node m r) = Some (Num height)
         \<and> jadd top (jdiv height (Fin 2)) = point_y (projectPoint (rect_center r) m)"
  using assms
  by (simp add: rect_node_def Let_def attribute_def projectPoint_def applyToPoint_def xy_def
      jsub_def)

lemma rect_displaced_neg:
  assumes "m = \<lparr>mat_a = Fin k, mat_b = Fin 0, mat_c = Fin 0, mat_d = Fin k',
                 mat_e = Fin tx, mat_f = Fin ty\<rparr>"
    and "point_x (rect_center r) = Fin cx" and "point_y (rect_center r) = Fin cy"
    and "rect_height r = Fin h" and "h * k' < 0"
  shows "\<exists>top height.
           attribute ''y'' (rect_node m r) = Some (Num top)
         \<and> attribute ''height'' (rect_node m r) = Some (Num height)
         \<and> jadd top (jdiv height (Fin 2)) \<noteq> point_y (projectPoint (rect_center r) m)"
proof -
  from assms(5) have "h \<noteq> 0" and "k' \<noteq> 0" by auto
  with assms show ?thesis
    by (simp add: rect_node_def Let_def attribute_def projectPoint_def applyToPoint_def xy_def
        jsub_def)
qed

text \<open>
  C4, at the scene of one rect of width 2 and height 2 centred at the origin, under
  \<open>"screen"\<close>. The centre is projected to \<open>(320, 320)\<close>, and the rect element has
  \<open>y = 600\<close> and \<open>height = 560\<close>: \<open>y\<close> plus half the height is 880, not 320, and the
  rect lies below the canvas.
\<close>

theorem screen_rect_displaced:
  "projectPoint (rect_center square) (scene_matrix (graphics (square_scene Screen))) =
     xy (Fin 320) (Fin 320)
   \<and> svg_children (getSvgFromGraphicsObject (square_scene Screen)) ! 0 =
       Element ''rect''
         [(''x'', Num (Fin 40)), (''y'', Num (Fin 600)),
          (''width'', Num (Fin 560)), (''height'', Num (Fin 560)),
          (''fill'', Str ''none''), (''stroke'', Str ''black'')] []"
  by (simp add: scene_defs bounds_defs matrix_defs project_defs node_defs)

section \<open>The single-point example\<close>

text \<open>
  C5, as the code has it. For the scene of the single point \<open>{x: 0, y: 0}\<close> under
  \<open>"math"\<close> the Bounds are the box \<open>{0, 0, 0, 0}\<close>, the fallback being returned for an
  empty point set only; the scale factor is \<open>+Infinity\<close> and both projected coordinates
  are NaN. The scale factor 280 and the projection \<open>(320, 320)\<close> of the point are those
  of the fallback box.
\<close>

theorem single_point_example:
  "getBounds (graphics (single_point_scene Math)) =
     \<lparr>minX = Fin 0, maxX = Fin 0, minY = Fin 0, maxY = Fin 0\<rparr>
   \<and> bounds_width (getBounds (graphics (single_point_scene Math))) = Fin 0
   \<and> bounds_height (getBounds (graphics (single_point_scene Math))) = Fin 0
   \<and> scale_factor (getBounds (graphics (single_point_scene Math))) = PInf
   \<and> projectPoint (xy (Fin 0) (Fin 0)) (scene_matrix (graphics (single_point_scene Math))) =
       xy NaN NaN
   \<and> scale_factor fallback_bounds = Fin 280
   \<and> projectPoint (xy (Fin 0) (Fin 0)) (getProjectionMatrix fallback_bounds Math) =
       xy (Fin 320) (Fin 320)"
  by (simp add: scene_defs bounds_defs matrix_defs project_defs)

text \<open>
  C5 as stated fails: the three values of the example are not those of the code.
\<close>

theorem single_point_example_counterexample:
  "\<not> (getBounds (graphics (single_point_scene Math)) = fallback_bounds
      \<and> scale_factor (getBounds (graphics (single_point_scene Math))) = Fin 280
      \<and> projectPoint (xy (Fin 0) (Fin 0)) (scene_matrix (graphics (single_point_scene Math))) =
          xy (Fin 320) (Fin 320))"
  by (simp add: scene_defs bounds_defs matrix_defs project_defs)

section \<open>Rounded operations\<close>

lemma fl_add_fin: "is_fin (fl_add rnd v w) \<Longrightarrow> is_fin v \<and> is_fin w"
  by (cases v; cases w) simp_all

lemma fl_sub_fin: "is_fin (fl_sub rnd v w) \<Longrightarrow> is_fin v \<and> is_fin w"
  unfolding fl_sub_def by (cases v; cases w) simp_all

lemma fl_mul_fin: "is_fin (fl_mul rnd v w) \<Longrightarrow> is_fin v \<and> is_fin w"
  by (cases v; cases w) (simp_all add: signed_inf_def split: if_splits)

lemma NaN_absorbs [simp]:
  "jadd v NaN = NaN" "jadd NaN v = NaN" "jmul v NaN = NaN" "jmul NaN v = NaN"
  "fl_add rnd v NaN = NaN" "fl_add rnd NaN v = NaN" "fl_mul rnd v NaN = NaN"
  "fl_mul rnd NaN v = NaN" "fl_sub rnd v NaN = NaN" "fl_sub rnd NaN v = NaN"
  "fl_div rnd v NaN = NaN" "fl_div rnd NaN v = NaN"
  by (cases v; simp add: fl_sub_def)+

lemma fl_ops_exact [simp]:
  "fl_add Fin v w = jadd v w" "fl_sub Fin v w = jsub v w" "fl_mul Fin v w = jmul v w"
  "fl_div Fin v w = jdiv v w"
  by (cases v; cases w; simp add: fl_sub_def jsub_def)+

lemma rounding_exact: "rounding 0 0 Fin"
  by (simp add: rounding_def)

lemma rounding_int:
  assumes "rounding u eta rnd" and "\<bar>n\<bar> \<le> 2 ^ 53"
  shows "rnd (of_int n) = Fin (of_int n)"
  using assms by (simp add: rounding_def)

lemma rounding_consts:
  assumes "rounding u eta rnd"
  shows "rnd 0 = Fin 0" "rnd 80 = Fin 80" "rnd 560 = Fin 560" "rnd 320 = Fin 320"
  using rounding_int [OF assms, of 0] rounding_int [OF assms, of 80]
    rounding_int [OF assms, of 560] rounding_int [OF assms, of 320]
  by simp_all

lemma rounding_repr:
  assumes "rounding u eta rnd" and "rnd x = Fin t"
  shows "rnd t = Fin t" and "\<bar>t - x\<bar> \<le> u * \<bar>x\<bar> + eta"
  using assms unfolding rounding_def by blast+

lemma rounding_neg:
  assumes "rounding u eta rnd"
  shows "rnd (- x) = jneg (rnd x)"
  using assms by (simp add: rounding_def)

lemma rounding_not_NaN:
  assumes "rounding u eta rnd"
  shows "rnd x \<noteq> NaN"
  using assms by (simp add: rounding_def)

lemma rounding_mono:
  assumes "rounding u eta rnd" and "x \<le> y"
  shows "jle (rnd x) (rnd y)"
  using assms by (simp add: rounding_def)

lemma rounding_nonneg:
  assumes R: "rounding u eta rnd" and "0 \<le> x"
  shows "rnd x = PInf \<or> (\<exists>t. rnd x = Fin t \<and> 0 \<le> t)"
proof -
  from rounding_mono [OF R assms(2)] have "jle (Fin 0) (rnd x)"
    by (simp add: rounding_consts [OF R])
  then show ?thesis by (cases "rnd x") simp_all
qed

lemma inner_size: "rounding u eta rnd \<Longrightarrow> inner_size_fl rnd = Fin 560"
  by (simp add: inner_size_fl_def fl_sub_def DEFAULT_SVG_SIZE_def PADDING_def rounding_consts)

lemma half_size: "rounding u eta rnd \<Longrightarrow> fl_div rnd DEFAULT_SVG_SIZE (Fin 2) = Fin 320"
  by (simp add: DEFAULT_SVG_SIZE_def rounding_consts)

text \<open>Adding zero to a result of the rounding.\<close>

lemma fl_add_zero:
  assumes R: "rounding u eta rnd"
  shows "fl_add rnd (rnd z) (Fin 0) = rnd z" and "fl_add rnd (Fin 0) (rnd z) = rnd z"
  using rounding_not_NaN [OF R, of z] rounding_repr(1) [OF R, of z]
  by (cases "rnd z"; simp)+

lemma fl_mul_zero:
  assumes R: "rounding u eta rnd"
  shows "fl_mul rnd (Fin 0) (Fin r) = Fin 0" and "fl_mul rnd (Fin r) (Fin 0) = Fin 0"
  by (simp_all add: rounding_consts [OF R])

lemma fl_mul_one:
  assumes R: "rounding u eta rnd" and "rnd t = Fin t"
  shows "fl_mul rnd (Fin 1) (Fin t) = Fin t" and "fl_mul rnd (Fin t) (Fin 1) = Fin t"
  using assms by simp_all

text \<open>A finite scale factor is representable.\<close>

lemma fl_div_repr:
  assumes R: "rounding u eta rnd" and "fl_div rnd v w = Fin t"
  shows "rnd t = Fin t"
proof (cases v)
  case (Fin r)
  note v = this
  show ?thesis
  proof (cases w)
    case (Fin s)
    with v assms(2) show ?thesis
      using rounding_repr(1) [OF R] by (auto simp: signed_inf_def split: if_splits)
  next
    case PInf
    with v assms(2) show ?thesis by (simp add: rounding_consts [OF R])
  next
    case NInf
    with v assms(2) show ?thesis by (simp add: rounding_consts [OF R])
  next
    case NaN
    with v assms(2) show ?thesis by simp
  qed
next
  case PInf
  with assms(2) show ?thesis by (cases w) (simp_all add: signed_inf_def split: if_splits)
next
  case NInf
  with assms(2) show ?thesis by (cases w) (simp_all add: signed_inf_def split: if_splits)
next
  case NaN
  with assms(2) show ?thesis by simp
qed

lemma math_min_cases:
  "math_min v w = Fin t \<Longrightarrow> (v = Fin t \<and> (w = PInf \<or> (\<exists>s. w = Fin s \<and> t \<le> s)))
     \<or> (w = Fin t \<and> (v = PInf \<or> (\<exists>s. v = Fin s \<and> t \<le> s)))"
  by (cases v; cases w) (auto simp: min_def split: if_splits)

lemma scale_factor_repr:
  assumes R: "rounding u eta rnd" and "scale_factor_fl rnd b = Fin k"
  shows "rnd k = Fin k"
  using math_min_cases [OF assms(2) [unfolded scale_factor_fl_def]] fl_div_repr [OF R]
  by blast

section \<open>The grid rounding is a rounding\<close>

text \<open>The number of grid steps nearest to the magnitude of \<open>x\<close>.\<close>

lemma grid_steps_mono:
  fixes x y :: real
  assumes "\<bar>x\<bar> \<le> \<bar>y\<bar>"
  shows "\<lfloor>\<bar>x\<bar> * 1024 + 1 / 2\<rfloor> \<le> \<lfloor>\<bar>y\<bar> * 1024 + 1 / 2\<rfloor>"
  using assms by (intro floor_mono) simp

lemma grid_steps_nonneg: "0 \<le> \<lfloor>\<bar>x::real\<bar> * 1024 + 1 / 2\<rfloor>"
  by simp

lemma grid_steps_error:
  fixes x :: real
  shows "\<bar>of_int \<lfloor>\<bar>x\<bar> * 1024 + 1 / 2\<rfloor> / 1024 - \<bar>x\<bar>\<bar> \<le> 1 / 2048"
proof -
  define z :: real where "z = of_int \<lfloor>\<bar>x\<bar> * 1024 + 1 / 2\<rfloor>"
  have "z \<le> \<bar>x\<bar> * 1024 + 1 / 2" "\<bar>x\<bar> * 1024 + 1 / 2 < z + 1"
    unfolding z_def by linarith+
  then have "\<bar>z / 1024 - \<bar>x\<bar>\<bar> \<le> 1 / 2048" by linarith
  then show ?thesis by (simp add: z_def)
qed

lemma grid_steps_of_grid:
  fixes m :: int and s :: real
  assumes "0 \<le> m" and that: "s = 0 \<or> \<bar>s\<bar> = 1"
  shows "\<lfloor>\<bar>s * of_int m / 1024 :: real\<bar> * 1024 + 1 / 2\<rfloor> = (if s = 0 then 0 else m)"
proof (cases "s = 0")
  case True
  then show ?thesis by simp
next
  case False
  with that have "\<bar>s\<bar> = 1" by simp
  then have "\<bar>s * of_int m / 1024 :: real\<bar> * 1024 + 1 / 2 = of_int m + 1 / 2"
    using assms by (simp add: abs_mult)
  moreover have "\<lfloor>of_int m + 1 / 2 :: real\<rfloor> = m" by linarith
  ultimately show ?thesis using False by simp
qed

lemma grid_rounding_Fin:
  "grid_rounding x = Fin t \<longleftrightarrow>
     \<lfloor>\<bar>x\<bar> * 1024 + 1 / 2\<rfloor> < 2 ^ 70 \<and> t = sgn x * of_int \<lfloor>\<bar>x\<bar> * 1024 + 1 / 2\<rfloor> / 1024"
  by (auto simp: grid_rounding_def Let_def signed_inf_def)

lemma grid_rounding_rounding: "rounding 0 (1 / 2048) grid_rounding"
  unfolding rounding_def
proof (intro conjI allI impI)
  show "(0::real) \<le> 0" "(0::real) \<le> 1 / 2048" by simp_all
next
  fix x show "grid_rounding x \<noteq> NaN"
    by (simp add: grid_rounding_def Let_def signed_inf_def)
next
  fix x t assume a: "grid_rounding x = Fin t"
  let ?m = "\<lfloor>\<bar>x\<bar> * 1024 + 1 / 2\<rfloor>"
  from a have m: "?m < 2 ^ 70" and t: "t = sgn x * of_int ?m / 1024"
    by (simp_all add: grid_rounding_Fin)
  have "\<bar>t - x\<bar> = \<bar>of_int ?m / 1024 - \<bar>x\<bar>\<bar>"
  proof (cases "x = 0")
    case True
    then show ?thesis by (simp add: t)
  next
    case False
    then have "\<bar>sgn x\<bar> = 1" by (simp add: sgn_real_def)
    have "t - x = sgn x * (of_int ?m / 1024 - \<bar>x\<bar>)"
      by (simp add: t algebra_simps sgn_real_def)
    then show ?thesis using \<open>\<bar>sgn x\<bar> = 1\<close> by (simp add: abs_mult)
  qed
  with grid_steps_error [of x] show "\<bar>t - x\<bar> \<le> 0 * \<bar>x\<bar> + 1 / 2048" by simp
  have s: "sgn x = 0 \<or> \<bar>sgn x\<bar> = 1" by (simp add: sgn_real_def)
  have steps: "\<lfloor>\<bar>t\<bar> * 1024 + 1 / 2\<rfloor> = (if sgn x = 0 then 0 else ?m)"
    unfolding t by (rule grid_steps_of_grid [OF _ s]) simp
  have sg: "sgn t * of_int (if sgn x = 0 then 0 else ?m) = sgn x * of_int ?m"
  proof (cases "?m = 0 \<or> sgn x = 0")
    case True
    then show ?thesis by auto
  next
    case False
    then have "0 < ?m" using grid_steps_nonneg [of x] by linarith
    then have "sgn t = sgn x" using False by (simp add: t sgn_mult sgn_divide)
    then show ?thesis using False by simp
  qed
  show "grid_rounding t = Fin t"
    unfolding grid_rounding_Fin steps using m sg
    by (auto simp: t)
next
  fix x :: real
  have "\<lfloor>\<bar>x\<bar> * 1024 + 1 / 2\<rfloor> \<ge> 2 ^ 70 \<Longrightarrow> x \<noteq> 0" by auto
  then show "grid_rounding (- x) = jneg (grid_rounding x)"
    by (auto simp: grid_rounding_def Let_def signed_inf_def sgn_real_def)
next
  fix x y :: real assume xy: "x \<le> y"
  define mx where "mx = \<lfloor>\<bar>x\<bar> * 1024 + 1 / 2\<rfloor>"
  define my where "my = \<lfloor>\<bar>y\<bar> * 1024 + 1 / 2\<rfloor>"
  have gx: "grid_rounding x = (if 2 ^ 70 \<le> mx then signed_inf x else Fin (sgn x * of_int mx / 1024))"
    and gy: "grid_rounding y = (if 2 ^ 70 \<le> my then signed_inf y else Fin (sgn y * of_int my / 1024))"
    by (simp_all add: grid_rounding_def Let_def mx_def my_def)
  have nn: "0 \<le> mx" "0 \<le> my" by (simp_all add: mx_def my_def)
  have zero: "x = 0 \<Longrightarrow> mx = 0" "y = 0 \<Longrightarrow> my = 0" by (simp_all add: mx_def my_def)
  have pos: "0 \<le> x \<Longrightarrow> mx \<le> my"
    unfolding mx_def my_def using xy by (intro grid_steps_mono) simp
  have neg: "y \<le> 0 \<Longrightarrow> my \<le> mx"
    unfolding mx_def my_def using xy by (intro grid_steps_mono) simp
  have vals: "sgn x * of_int mx / 1024 \<le> sgn y * of_int my / 1024"
  proof -
    consider "y \<le> 0" | "0 \<le> x" | "x < 0" "0 < y" by linarith
    then have "sgn x * real_of_int mx \<le> sgn y * real_of_int my"
    proof cases
      case 1
      with neg have "my \<le> mx" by simp
      then show ?thesis using 1 xy nn zero by (auto simp: sgn_real_def)
    next
      case 2
      with pos have "mx \<le> my" by simp
      then show ?thesis using 2 xy nn zero by (auto simp: sgn_real_def)
    next
      case 3
      then show ?thesis using nn by (simp add: sgn_real_def)
    qed
    then show ?thesis by (simp add: divide_right_mono)
  qed
  show "jle (grid_rounding x) (grid_rounding y)"
  proof (cases "2 ^ 70 \<le> mx")
    case True
    note ox = this
    with zero have "x \<noteq> 0" by auto
    show ?thesis
    proof (cases "x < 0")
      case True
      then have "grid_rounding x = NInf" using ox by (simp add: gx signed_inf_def)
      then show ?thesis unfolding gy by (simp add: signed_inf_def)
    next
      case False
      with \<open>x \<noteq> 0\<close> have "0 < x" by simp
      with pos ox xy have "2 ^ 70 \<le> my" "0 < y" by simp_all
      then show ?thesis using ox \<open>0 < x\<close> by (simp add: gx gy signed_inf_def)
    qed
  next
    case False
    note fx = this
    show ?thesis
    proof (cases "2 ^ 70 \<le> my")
      case True
      have "\<not> y < 0"
      proof
        assume "y < 0"
        with neg have "my \<le> mx" by simp
        with True fx show False by simp
      qed
      then show ?thesis using True fx by (simp add: gx gy signed_inf_def)
    next
      case False
      then show ?thesis using fx vals by (simp add: gx gy)
    qed
  qed
next
  fix n :: int assume n: "\<bar>n\<bar> \<le> 2 ^ 53"
  have "\<bar>of_int n :: real\<bar> * 1024 + 1 / 2 = of_int (\<bar>n\<bar> * 1024) + 1 / 2" by simp
  moreover have "\<lfloor>of_int (\<bar>n\<bar> * 1024) + 1 / 2 :: real\<rfloor> = \<bar>n\<bar> * 1024" by linarith
  ultimately have m: "\<lfloor>\<bar>of_int n :: real\<bar> * 1024 + 1 / 2\<rfloor> = \<bar>n\<bar> * 1024" by simp
  have "\<bar>n\<bar> * 1024 < 2 ^ 70" using n by simp
  moreover have "sgn (of_int n :: real) * of_int (\<bar>n\<bar> * 1024) / 1024 = of_int n"
    by (simp add: sgn_real_def)
  ultimately show "grid_rounding (of_int n) = Fin (of_int n)"
    unfolding grid_rounding_Fin m by simp
qed

section \<open>Without rounding, the pipeline in binary64 is the exact pipeline\<close>

lemma exact_bounds:
  "rect_corners_fl Fin = rect_corners" "circle_extremes_fl Fin = circle_extremes"
  "all_points_fl Fin = all_points" "getBounds_fl Fin = getBounds"
  "bounds_width_fl Fin = bounds_width" "bounds_height_fl Fin = bounds_height"
  "scale_factor_fl Fin = scale_factor"
proof -
  show 1: "rect_corners_fl Fin = rect_corners"
    by (rule ext) (simp add: rect_corners_fl_def rect_corners_def)
  show 2: "circle_extremes_fl Fin = circle_extremes"
    by (rule ext) (simp add: circle_extremes_fl_def circle_extremes_def)
  show 3: "all_points_fl Fin = all_points"
    by (rule ext) (simp add: all_points_fl_def all_points_def 1 2)
  show "getBounds_fl Fin = getBounds"
    by (rule ext) (simp add: getBounds_fl_def getBounds_def 3)
  show 5: "bounds_width_fl Fin = bounds_width"
    by (rule ext) (simp add: bounds_width_fl_def bounds_width_def)
  show 6: "bounds_height_fl Fin = bounds_height"
    by (rule ext) (simp add: bounds_height_fl_def bounds_height_def)
  show "scale_factor_fl Fin = scale_factor"
    by (rule ext) (simp add: scale_factor_fl_def scale_factor_def inner_size_fl_def 5 6)
qed

lemma exact_matrix:
  "multiply_fl Fin = multiply" "compose_fl Fin m ms = compose m ms"
  "getProjectionMatrix_fl Fin = getProjectionMatrix" "projectPoint_fl Fin = projectPoint"
  "scene_matrix_fl Fin = scene_matrix"
proof -
  show 1: "multiply_fl Fin = multiply"
    by (intro ext) (simp add: multiply_fl_def multiply_def)
  show 2: "compose_fl Fin m ms = compose m ms" for m ms
    by (induction ms arbitrary: m) (simp_all add: 1)
  show 3: "getProjectionMatrix_fl Fin = getProjectionMatrix"
    by (intro ext)
      (simp add: getProjectionMatrix_fl_def getProjectionMatrix_def Let_def centre_x_fl_def
        centre_y_fl_def exact_bounds 1)
  show "projectPoint_fl Fin = projectPoint"
    by (intro ext) (simp add: projectPoint_fl_def projectPoint_def applyToPoint_fl_def applyToPoint_def)
  show "scene_matrix_fl Fin = scene_matrix"
    by (rule ext) (simp add: scene_matrix_fl_def scene_matrix_def exact_bounds 3)
qed

lemma exact_nodes:
  "point_node_fl Fin = point_node" "line_node_fl Fin = line_node" "rect_node_fl Fin = rect_node"
  "circle_node_fl Fin = circle_node"
  by (intro ext; simp add: point_node_fl_def point_node_def line_node_fl_def line_node_def
      rect_node_fl_def rect_node_def circle_node_fl_def circle_node_def exact_matrix Let_def
      cong: option.case_cong list.case_cong if_cong)+

lemma exact_line_nodes: "line_nodes_fl Fin m ls = line_nodes m ls"
  by (induction ls) (simp_all add: exact_nodes cong: sum.case_cong)

lemma exact_document: "getSvgFromGraphicsObject_fl Fin = getSvgFromGraphicsObject"
  by (rule ext)
    (simp add: getSvgFromGraphicsObject_fl_def getSvgFromGraphicsObject_def exact_bounds
      exact_matrix exact_nodes exact_line_nodes Let_def cong: sum.case_cong)

section \<open>Evaluation with the grid rounding\<close>

lemmas fl_defs = getBounds_fl_def all_points_fl_def rect_corners_fl_def circle_extremes_fl_def
  bounds_width_fl_def bounds_height_fl_def inner_size_fl_def scale_factor_fl_def centre_x_fl_def
  centre_y_fl_def multiply_fl_def getProjectionMatrix_fl_def applyToPoint_fl_def
  projectPoint_fl_def scene_matrix_fl_def fl_sub_def grid_rounding_def

lemma wide_bounds:
  "getBounds_fl grid_rounding (graphics (wide_scene cs)) =
     \<lparr>minX = Fin 0, maxX = Fin 3, minY = Fin 0, maxY = Fin 1\<rparr>"
  by (simp add: scene_defs fl_defs or_empty_def xy_def extend_bounds_def)

lemma wide_scale:
  "scale_factor_fl grid_rounding \<lparr>minX = Fin 0, maxX = Fin 3, minY = Fin 0, maxY = Fin 1\<rparr> =
     Fin (191147 / 1024)"
  by (simp add: fl_defs DEFAULT_SVG_SIZE_def PADDING_def Let_def)

lemma wide_matrix:
  "getProjectionMatrix_fl grid_rounding \<lparr>minX = Fin 0, maxX = Fin 3, minY = Fin 0, maxY = Fin 1\<rparr> Math =
     \<lparr>mat_a = Fin (191147 / 1024), mat_b = Fin 0, mat_c = Fin 0, mat_d = Fin (191147 / 1024),
      mat_e = Fin (40959 / 1024), mat_f = Fin (232106 / 1024)\<rparr>"
  apply (simp add: getProjectionMatrix_fl_def wide_scale Let_def)
  apply (simp add: fl_defs DEFAULT_SVG_SIZE_def PADDING_def Let_def translate_def scale_def)
  done

section \<open>The matrix in closed form\<close>

lemma first_product:
  assumes R: "rounding u eta rnd" and k: "rnd k = Fin k"
  shows "multiply_fl rnd (translate (Fin 320) (Fin 320)) (scale (Fin k) (Fin (if neg then - k else k))) =
           \<lparr>mat_a = Fin k, mat_b = Fin 0, mat_c = Fin 0, mat_d = Fin (if neg then - k else k),
            mat_e = Fin 320, mat_f = Fin 320\<rparr>"
proof -
  have nk: "rnd (- k) = Fin (- k)" using rounding_neg [OF R, of k] k by simp
  show ?thesis
    using k nk
    by (simp add: multiply_fl_def translate_def scale_def rounding_consts [OF R])
qed

lemma second_product:
  assumes R: "rounding u eta rnd" and k: "rnd k = Fin k" and d: "rnd d = Fin d"
  shows "multiply_fl rnd
           \<lparr>mat_a = Fin k, mat_b = Fin 0, mat_c = Fin 0, mat_d = Fin d,
            mat_e = Fin 320, mat_f = Fin 320\<rparr> (translate tx ty) =
           \<lparr>mat_a = Fin k, mat_b = Fin 0, mat_c = Fin 0, mat_d = Fin d,
            mat_e = fl_add rnd (fl_add rnd (fl_mul rnd (Fin k) tx) (fl_mul rnd (Fin 0) ty)) (Fin 320),
            mat_f = fl_add rnd (fl_add rnd (fl_mul rnd (Fin 0) tx) (fl_mul rnd (Fin d) ty)) (Fin 320)\<rparr>"
  using k d by (simp add: multiply_fl_def translate_def rounding_consts [OF R])

lemma matrix_fl_finite_scale:
  assumes R: "rounding u eta rnd" and k: "scale_factor_fl rnd b = Fin k"
  shows "getProjectionMatrix_fl rnd b cs =
           \<lparr>mat_a = Fin k, mat_b = Fin 0, mat_c = Fin 0,
            mat_d = Fin (if cs = Screen then - k else k),
            mat_e = fl_add rnd
                      (fl_add rnd (fl_mul rnd (Fin k) (jneg (centre_x_fl rnd b)))
                         (fl_mul rnd (Fin 0) (jneg (centre_y_fl rnd b))))
                      (Fin 320),
            mat_f = fl_add rnd
                      (fl_add rnd (fl_mul rnd (Fin 0) (jneg (centre_x_fl rnd b)))
                         (fl_mul rnd (Fin (if cs = Screen then - k else k))
                            (jneg (centre_y_fl rnd b))))
                      (Fin 320)\<rparr>"
proof -
  note rk = scale_factor_repr [OF R k]
  have rd: "rnd (if cs = Screen then - k else k) = Fin (if cs = Screen then - k else k)"
    using rounding_neg [OF R, of k] rk by simp
  have s: "scale (Fin k) (if cs = Screen then jneg (Fin k) else Fin k) =
             scale (Fin k) (Fin (if cs = Screen then - k else k))"
    by simp
  show ?thesis
    unfolding getProjectionMatrix_fl_def Let_def k half_size [OF R] compose_fl.simps s
      first_product [OF R rk, of "cs = Screen"]
    by (rule second_product [OF R rk rd])
qed

lemma matrix_fl_infinite_scale:
  assumes R: "rounding u eta rnd" and k: "\<not> is_fin (scale_factor_fl rnd b)"
  shows "getProjectionMatrix_fl rnd b cs =
           \<lparr>mat_a = NaN, mat_b = NaN, mat_c = NaN, mat_d = NaN, mat_e = NaN, mat_f = NaN\<rparr>"
  using k
  by (cases "scale_factor_fl rnd b")
    (simp_all add: getProjectionMatrix_fl_def Let_def half_size [OF R] multiply_fl_def
      translate_def scale_def rounding_consts [OF R] signed_inf_def)




lemma scale_factor_both_zero:
  assumes R: "rounding u eta rnd"
    and "bounds_width_fl rnd b = Fin 0" and "bounds_height_fl rnd b = Fin 0"
  shows "scale_factor_fl rnd b = PInf"
  using assms(2,3) by (simp add: scale_factor_fl_def inner_size [OF R] signed_inf_def)

section \<open>Zero extents\<close>

lemma math_min_PInf [simp]: "math_min PInf v = v" "math_min v PInf = v"
  by (cases v; simp)+

lemma scale_factor_zero_width:
  assumes R: "rounding u eta rnd" and "bounds_width_fl rnd b = Fin 0"
  shows "scale_factor_fl rnd b = fl_div rnd (Fin 560) (bounds_height_fl rnd b)"
  using assms(2) by (simp add: scale_factor_fl_def inner_size [OF R] signed_inf_def)

lemma scale_factor_zero_height:
  assumes R: "rounding u eta rnd" and "bounds_height_fl rnd b = Fin 0"
  shows "scale_factor_fl rnd b = fl_div rnd (Fin 560) (bounds_width_fl rnd b)"
  using assms(2) by (simp add: scale_factor_fl_def inner_size [OF R] signed_inf_def)

lemma scene_matrix_fl_eq:
  "scene_matrix_fl rnd g = getProjectionMatrix_fl rnd (getBounds_fl rnd g) (coordinateSystem g)"
  by (simp add: scene_matrix_fl_def)

lemma matrix_both_zero:
  assumes R: "rounding u eta rnd"
    and "bounds_width_fl rnd b = Fin 0" and "bounds_height_fl rnd b = Fin 0"
  shows "getProjectionMatrix_fl rnd b cs = nan_matrix"
  unfolding nan_matrix_def
  by (rule matrix_fl_infinite_scale [OF R]) (simp add: scale_factor_both_zero [OF assms])

text \<open>Every primitive projected with the NaN matrix carries NaN.\<close>

lemma project_nan [simp]:
  "point_x (projectPoint_fl rnd p nan_matrix) = NaN"
  "point_y (projectPoint_fl rnd p nan_matrix) = NaN"
  by (simp_all add: projectPoint_fl_def applyToPoint_fl_def nan_matrix_def)

lemma point_node_nan: "has_nan (point_node_fl rnd nan_matrix p)"
  by (simp add: point_node_fl_def Let_def)

lemma rect_node_nan: "has_nan (rect_node_fl rnd nan_matrix r)"
  by (simp add: rect_node_fl_def Let_def)

lemma circle_node_nan: "has_nan (circle_node_fl rnd nan_matrix c)"
  by (simp add: circle_node_fl_def Let_def)

lemma line_node_nan:
  assumes "line_node_fl rnd nan_matrix l = Inr n"
  shows "has_nan n"
  using assms by (cases "line_points l") (auto simp: line_node_fl_def)

lemma line_nodes_fl_total:
  assumes "list_all (\<lambda>l. line_points l \<noteq> []) ls"
  shows "\<exists>ns. line_nodes_fl rnd m ls = Inr ns \<and> length ns = length ls
           \<and> (\<forall>j<length ls. line_node_fl rnd m (ls ! j) = Inr (ns ! j))"
  using assms
proof (induction ls)
  case Nil
  then show ?case by simp
next
  case (Cons l ls)
  then obtain ns where ns: "line_nodes_fl rnd m ls = Inr ns" "length ns = length ls"
    "\<forall>j<length ls. line_node_fl rnd m (ls ! j) = Inr (ns ! j)"
    by auto
  from Cons.prems obtain p0 ps where "line_points l = p0 # ps"
    by (cases "line_points l") auto
  then obtain n where n: "line_node_fl rnd m l = Inr n" by (simp add: line_node_fl_def)
  have "line_nodes_fl rnd m (l # ls) = Inr (n # ns)" using n ns(1) by simp
  moreover have "\<forall>j<length (l # ls). line_node_fl rnd m ((l # ls) ! j) = Inr ((n # ns) ! j)"
    using n ns(3) by (auto simp: nth_Cons split: nat.splits)
  ultimately show ?case using ns(2) by auto
qed

lemma document_fl_structure:
  assumes "lines_nonempty (graphics go)"
  shows "\<exists>ns. length ns = length (or_empty (lines (graphics go)))
           \<and> (\<forall>j<length ns.
                 line_node_fl rnd (scene_matrix_fl rnd (graphics go))
                   (or_empty (lines (graphics go)) ! j) = Inr (ns ! j))
           \<and> getSvgFromGraphicsObject_fl rnd go =
               Inr (Element ''svg'' svg_attributes
                      ((map (point_node_fl rnd (scene_matrix_fl rnd (graphics go)))
                          (or_empty (points (graphics go)))
                        @ ns
                        @ map (rect_node_fl rnd (scene_matrix_fl rnd (graphics go)))
                            (or_empty (rects (graphics go)))
                        @ map (circle_node_fl rnd (scene_matrix_fl rnd (graphics go)))
                            (or_empty (circles (graphics go))))
                       @ [crosshair_node, script_node (scene_matrix_fl rnd (graphics go))]))"
proof -
  let ?m = "scene_matrix_fl rnd (graphics go)"
  from assms line_nodes_fl_total [of "or_empty (lines (graphics go))" rnd ?m]
  obtain ns where ns: "line_nodes_fl rnd ?m (or_empty (lines (graphics go))) = Inr ns"
    "length ns = length (or_empty (lines (graphics go)))"
    "\<forall>j<length (or_empty (lines (graphics go))).
        line_node_fl rnd ?m (or_empty (lines (graphics go)) ! j) = Inr (ns ! j)"
    unfolding lines_nonempty_def by blast
  have "getSvgFromGraphicsObject_fl rnd go =
               Inr (Element ''svg'' svg_attributes
                      ((map (point_node_fl rnd ?m) (or_empty (points (graphics go)))
                        @ ns
                        @ map (rect_node_fl rnd ?m) (or_empty (rects (graphics go)))
                        @ map (circle_node_fl rnd ?m) (or_empty (circles (graphics go))))
                       @ [crosshair_node, script_node ?m]))"
    using ns(1) by (simp add: getSvgFromGraphicsObject_fl_def Let_def scene_matrix_fl_def)
  with ns(2,3) show ?thesis by auto
qed

text \<open>
  C2, as the code has it. No minimum extent is substituted: the scale factor is computed
  from the extents as they are. For every rounding of the kind of binary64 and every
  scene whose lines each have a point: when the width of the bounding box is zero the
  scale factor is \<open>560 / height\<close> as computed, the infinite quotient of the zero width
  being discarded by \<open>Math.min\<close>; when the height is zero it is \<open>560 / width\<close> as
  computed; and when both are zero (all primitives at one location) the scale factor is
  \<open>+Infinity\<close>, the six coefficients of the matrix are NaN, and the call returns a
  document whose children are a node for each primitive, each with NaN in an attribute,
  followed by the crosshair and the script.
\<close>

theorem zero_extent_scale:
  assumes R: "rounding u eta rnd" and L: "lines_nonempty (graphics go)"
  shows "(bounds_width_fl rnd (getBounds_fl rnd (graphics go)) = Fin 0 \<longrightarrow>
            scale_factor_fl rnd (getBounds_fl rnd (graphics go)) =
              fl_div rnd (Fin 560) (bounds_height_fl rnd (getBounds_fl rnd (graphics go))))
       \<and> (bounds_height_fl rnd (getBounds_fl rnd (graphics go)) = Fin 0 \<longrightarrow>
            scale_factor_fl rnd (getBounds_fl rnd (graphics go)) =
              fl_div rnd (Fin 560) (bounds_width_fl rnd (getBounds_fl rnd (graphics go))))
       \<and> (bounds_width_fl rnd (getBounds_fl rnd (graphics go)) = Fin 0
            \<and> bounds_height_fl rnd (getBounds_fl rnd (graphics go)) = Fin 0 \<longrightarrow>
            scale_factor_fl rnd (getBounds_fl rnd (graphics go)) = PInf
            \<and> scene_matrix_fl rnd (graphics go) = nan_matrix
            \<and> (\<exists>primitives.
                  getSvgFromGraphicsObject_fl rnd go =
                    Inr (Element ''svg'' svg_attributes
                           (primitives @ [crosshair_node, script_node nan_matrix]))
                  \<and> length primitives =
                      length (or_empty (points (graphics go)))
                      + length (or_empty (lines (graphics go)))
                      + length (or_empty (rects (graphics go)))
                      + length (or_empty (circles (graphics go)))
                  \<and> list_all has_nan primitives))"
proof (intro conjI impI)
  let ?b = "getBounds_fl rnd (graphics go)"
  assume "bounds_width_fl rnd ?b = Fin 0"
  then show "scale_factor_fl rnd ?b = fl_div rnd (Fin 560) (bounds_height_fl rnd ?b)"
    by (rule scale_factor_zero_width [OF R])
next
  let ?b = "getBounds_fl rnd (graphics go)"
  assume "bounds_height_fl rnd ?b = Fin 0"
  then show "scale_factor_fl rnd ?b = fl_div rnd (Fin 560) (bounds_width_fl rnd ?b)"
    by (rule scale_factor_zero_height [OF R])
next
  let ?b = "getBounds_fl rnd (graphics go)"
  assume z: "bounds_width_fl rnd ?b = Fin 0 \<and> bounds_height_fl rnd ?b = Fin 0"
  then show "scale_factor_fl rnd ?b = PInf" by (simp add: scale_factor_both_zero [OF R])
  from z show m: "scene_matrix_fl rnd (graphics go) = nan_matrix"
    by (simp add: scene_matrix_fl_eq matrix_both_zero [OF R])
  from document_fl_structure [OF L, of rnd] obtain ns where
    len: "length ns = length (or_empty (lines (graphics go)))"
    and nodes: "\<forall>j<length ns. line_node_fl rnd nan_matrix (or_empty (lines (graphics go)) ! j) =
                  Inr (ns ! j)"
    and doc: "getSvgFromGraphicsObject_fl rnd go =
               Inr (Element ''svg'' svg_attributes
                      ((map (point_node_fl rnd nan_matrix) (or_empty (points (graphics go)))
                        @ ns
                        @ map (rect_node_fl rnd nan_matrix) (or_empty (rects (graphics go)))
                        @ map (circle_node_fl rnd nan_matrix) (or_empty (circles (graphics go))))
                       @ [crosshair_node, script_node nan_matrix]))"
    unfolding m by blast
  have "list_all has_nan ns"
    unfolding list_all_length using nodes line_node_nan by blast
  then have "list_all has_nan
               (map (point_node_fl rnd nan_matrix) (or_empty (points (graphics go)))
                @ ns
                @ map (rect_node_fl rnd nan_matrix) (or_empty (rects (graphics go)))
                @ map (circle_node_fl rnd nan_matrix) (or_empty (circles (graphics go))))"
    by (auto simp: list_all_iff point_node_nan rect_node_nan circle_node_nan)
  with doc len show "\<exists>primitives.
                  getSvgFromGraphicsObject_fl rnd go =
                    Inr (Element ''svg'' svg_attributes
                           (primitives @ [crosshair_node, script_node nan_matrix]))
                  \<and> length primitives =
                      length (or_empty (points (graphics go)))
                      + length (or_empty (lines (graphics go)))
                      + length (or_empty (rects (graphics go)))
                      + length (or_empty (circles (graphics go)))
                  \<and> list_all has_nan primitives"
    by (intro exI conjI) (assumption, simp, assumption)
qed

text \<open>The scene of the single point \<open>(0, 0)\<close>: both extents are zero.\<close>

theorem zero_extent_scale_witness:
  "rounding 0 (1 / 2048) grid_rounding
   \<and> lines_nonempty (graphics (single_point_scene Math))
   \<and> bounds_width_fl grid_rounding (getBounds_fl grid_rounding (graphics (single_point_scene Math)))
       = Fin 0
   \<and> bounds_height_fl grid_rounding (getBounds_fl grid_rounding (graphics (single_point_scene Math)))
       = Fin 0
   \<and> scale_factor_fl grid_rounding (getBounds_fl grid_rounding (graphics (single_point_scene Math)))
       = PInf
   \<and> scene_matrix_fl grid_rounding (graphics (single_point_scene Math)) = nan_matrix
   \<and> (\<exists>primitives.
         getSvgFromGraphicsObject_fl grid_rounding (single_point_scene Math) =
           Inr (Element ''svg'' svg_attributes
                  (primitives @ [crosshair_node, script_node nan_matrix]))
         \<and> length primitives = 1 \<and> list_all has_nan primitives)"
proof -
  let ?go = "single_point_scene Math"
  have L: "lines_nonempty (graphics ?go)"
    by (simp add: scene_defs lines_nonempty_def or_empty_def)
  have b: "getBounds_fl grid_rounding (graphics ?go) =
             \<lparr>minX = Fin 0, maxX = Fin 0, minY = Fin 0, maxY = Fin 0\<rparr>"
    by (simp add: scene_defs fl_defs or_empty_def xy_def extend_bounds_def)
  have w: "bounds_width_fl grid_rounding (getBounds_fl grid_rounding (graphics ?go)) = Fin 0"
    and h: "bounds_height_fl grid_rounding (getBounds_fl grid_rounding (graphics ?go)) = Fin 0"
    unfolding b by (simp_all add: fl_defs Let_def)
  have n: "length (or_empty (points (graphics ?go))) + length (or_empty (lines (graphics ?go)))
           + length (or_empty (rects (graphics ?go))) + length (or_empty (circles (graphics ?go))) = 1"
    by (simp add: scene_defs or_empty_def)
  from zero_extent_scale [OF grid_rounding_rounding L] w h grid_rounding_rounding L
  show ?thesis unfolding n by (simp add: signed_inf_def)
qed

text \<open>
  C2 as stated fails at the scene of a single point: the scale factor is
  \<open>+Infinity\<close>, computed from the zero extents as they are, and the
  \<open>cx\<close> of the circle of the point is NaN.
\<close>

theorem degenerate_extent_counterexample:
  "scale_factor (getBounds (graphics (single_point_scene Math))) = PInf
   \<and> attribute ''cx''
       (hd (node_children (svg_children (getSvgFromGraphicsObject (single_point_scene Math)) ! 0)))
     = Some (Num NaN)"
  by (simp add: scene_defs bounds_defs matrix_defs project_defs node_defs)

section \<open>The projection in closed form\<close>

lemma jneg_fin [simp]: "is_fin (jneg v) \<longleftrightarrow> is_fin v"
  by (cases v) simp_all

lemma jneg_Fin_iff: "jneg v = Fin r \<longleftrightarrow> v = Fin (- r)"
  by (cases v) auto

text \<open>A finite projected coordinate: the scale factor, the centre and the point are finite.\<close>

lemma finite_projection:
  assumes R: "rounding u eta rnd"
    and "is_fin (point_x (projectPoint_fl rnd p (getProjectionMatrix_fl rnd b cs)))
         \<or> is_fin (point_y (projectPoint_fl rnd p (getProjectionMatrix_fl rnd b cs)))"
  shows "\<exists>k cx cy px py. scale_factor_fl rnd b = Fin k \<and> centre_x_fl rnd b = Fin cx
           \<and> centre_y_fl rnd b = Fin cy \<and> point_x p = Fin px \<and> point_y p = Fin py"
proof -
  let ?m = "getProjectionMatrix_fl rnd b cs"
  have k: "is_fin (scale_factor_fl rnd b)"
  proof (rule ccontr)
    assume "\<not> is_fin (scale_factor_fl rnd b)"
    from matrix_fl_infinite_scale [OF R this, of cs] assms(2) show False
      by (simp add: projectPoint_fl_def applyToPoint_fl_def)
  qed
  then obtain kk where kk: "scale_factor_fl rnd b = Fin kk" by (auto simp: is_fin_iff)
  note m = matrix_fl_finite_scale [OF R kk, of cs]
  from assms(2) have fin: "is_fin (point_x p) \<and> is_fin (point_y p)
      \<and> (is_fin (mat_e ?m) \<or> is_fin (mat_f ?m))"
    by (auto simp: projectPoint_fl_def applyToPoint_fl_def xy_def dest!: fl_add_fin fl_mul_fin)
  then have "is_fin (centre_x_fl rnd b) \<and> is_fin (centre_y_fl rnd b)"
    unfolding m by (auto dest!: fl_add_fin fl_mul_fin)
  with fin kk show ?thesis by (auto simp: is_fin_iff)
qed

lemma projection_closed_form:
  assumes R: "rounding u eta rnd"
    and k: "scale_factor_fl rnd b = Fin k"
    and c: "centre_x_fl rnd b = Fin cx" "centre_y_fl rnd b = Fin cy"
    and p: "point_x p = Fin px" "point_y p = Fin py"
  shows "point_x (projectPoint_fl rnd p (getProjectionMatrix_fl rnd b cs)) =
           fl_add rnd (rnd (k * px)) (fl_add rnd (rnd (k * (- cx))) (Fin 320))"
    and "point_y (projectPoint_fl rnd p (getProjectionMatrix_fl rnd b cs)) =
           fl_add rnd (rnd ((if cs = Screen then - k else k) * py))
             (fl_add rnd (rnd ((if cs = Screen then - k else k) * (- cy))) (Fin 320))"
  unfolding matrix_fl_finite_scale [OF R k]
  by (simp_all add: projectPoint_fl_def applyToPoint_fl_def xy_def c p
      rounding_consts [OF R] fl_add_zero [OF R])

section \<open>Mirror symmetry up to rounding\<close>

lemma fl_add_rnd_Fin:
  assumes R: "rounding u eta rnd" and "fl_add rnd (rnd x) (Fin s) = Fin t"
  obtains a where "rnd x = Fin a" and "rnd (a + s) = Fin t"
  using assms(2) by (cases "rnd x") simp_all

lemma fl_add_rnd_rnd_Fin:
  assumes R: "rounding u eta rnd" and "fl_add rnd (rnd x) (fl_add rnd (rnd z) (Fin s)) = Fin t"
  obtains a b e where "rnd x = Fin a" and "rnd z = Fin b" and "rnd (b + s) = Fin e"
    and "rnd (a + e) = Fin t"
proof -
  from assms(2) have "is_fin (fl_add rnd (rnd z) (Fin s))" and "is_fin (rnd x)"
    using fl_add_fin [of rnd "rnd x" "fl_add rnd (rnd z) (Fin s)"] by simp_all
  then obtain e a where e: "fl_add rnd (rnd z) (Fin s) = Fin e" and a: "rnd x = Fin a"
    by (auto simp: is_fin_iff)
  from fl_add_rnd_Fin [OF R e] obtain b where b: "rnd z = Fin b" "rnd (b + s) = Fin e" by blast
  from assms(2) have "rnd (a + e) = Fin t" by (simp add: a e)
  with a b that show ?thesis by blast
qed

lemma scaled_le:
  fixes u x y :: real
  assumes "0 \<le> u" and "x \<le> y"
  shows "u * x \<le> u * y"
  using assms by (rule mult_left_mono [rotated])

lemma mirror_error:
  assumes R: "rounding u eta rnd" and u1: "u \<le> 1"
    and ym: "fl_add rnd (rnd (k * y)) (fl_add rnd (rnd (k * n)) (Fin 320)) = Fin ym"
    and ys: "fl_add rnd (rnd (- k * y)) (fl_add rnd (rnd (- k * n)) (Fin 320)) = Fin ys"
  shows "\<bar>ys + ym - 640\<bar> \<le> 12 * u * (\<bar>k * y\<bar> + \<bar>k * n\<bar> + 160 + eta) + 4 * eta"
proof -
  from R have u0: "0 \<le> u" and e0: "0 \<le> eta" by (simp_all add: rounding_def)
  from fl_add_rnd_rnd_Fin [OF R ym] obtain A B p where
    A: "rnd (k * y) = Fin A" and B: "rnd (k * n) = Fin B"
    and p: "rnd (B + 320) = Fin p" and rm: "rnd (A + p) = Fin ym"
    by blast
  have nA: "rnd (- (k * y)) = Fin (- A)" and nB: "rnd (- (k * n)) = Fin (- B)"
    using rounding_neg [OF R, of "k * y"] rounding_neg [OF R, of "k * n"] A B by simp_all
  from ys have "fl_add rnd (Fin (- A)) (fl_add rnd (Fin (- B)) (Fin 320)) = Fin ys"
    by (simp add: nA nB)
  then obtain q where q: "rnd (320 - B) = Fin q" and rs: "rnd (q - A) = Fin ys"
    by (cases "rnd (320 - B)") simp_all
  note eA = rounding_repr(2) [OF R A] and eB = rounding_repr(2) [OF R B]
    and ep = rounding_repr(2) [OF R p] and eq = rounding_repr(2) [OF R q]
    and em = rounding_repr(2) [OF R rm] and es = rounding_repr(2) [OF R rs]
  define U1 where "U1 = u * \<bar>k * y\<bar>"
  define U2 where "U2 = u * \<bar>k * n\<bar>"
  define U3 where "U3 = u * eta"
  have U: "0 \<le> U1" "0 \<le> U2" "0 \<le> U3" "U1 \<le> \<bar>k * y\<bar>" "U2 \<le> \<bar>k * n\<bar>" "U3 \<le> eta"
    using u0 u1 e0 by (simp_all add: U1_def U2_def U3_def mult_left_le_one_le)
  have bA: "\<bar>A\<bar> \<le> 2 * \<bar>k * y\<bar> + eta" using eA U(4) unfolding U1_def by linarith
  have bB: "\<bar>B\<bar> \<le> 2 * \<bar>k * n\<bar> + eta" using eB U(5) unfolding U2_def by linarith
  have uA: "u * \<bar>A\<bar> \<le> 2 * U1 + U3"
    using scaled_le [OF u0 bA] by (simp add: U1_def U3_def algebra_simps)
  have uB: "u * \<bar>B\<bar> \<le> 2 * U2 + U3"
    using scaled_le [OF u0 bB] by (simp add: U2_def U3_def algebra_simps)
  have b1: "u * \<bar>B + 320\<bar> \<le> 2 * U2 + U3 + 320 * u"
  proof -
    have "\<bar>B + 320\<bar> \<le> \<bar>B\<bar> + 320" by linarith
    from scaled_le [OF u0 this] uB show ?thesis by (simp add: algebra_simps)
  qed
  have b2: "u * \<bar>320 - B\<bar> \<le> 2 * U2 + U3 + 320 * u"
  proof -
    have "\<bar>320 - B\<bar> \<le> \<bar>B\<bar> + 320" by linarith
    from scaled_le [OF u0 this] uB show ?thesis by (simp add: algebra_simps)
  qed
  have bp: "\<bar>p\<bar> \<le> 4 * \<bar>k * n\<bar> + 3 * eta + 640"
    using ep b1 bB U u1 by linarith
  have bq: "\<bar>q\<bar> \<le> 4 * \<bar>k * n\<bar> + 3 * eta + 640"
    using eq b2 bB U u1 by linarith
  have up: "u * \<bar>p\<bar> \<le> 4 * U2 + 3 * U3 + 640 * u"
    using scaled_le [OF u0 bp] by (simp add: U2_def U3_def algebra_simps)
  have uq: "u * \<bar>q\<bar> \<le> 4 * U2 + 3 * U3 + 640 * u"
    using scaled_le [OF u0 bq] by (simp add: U2_def U3_def algebra_simps)
  have b3: "u * \<bar>A + p\<bar> \<le> 2 * U1 + 4 * U2 + 4 * U3 + 640 * u"
  proof -
    have "\<bar>A + p\<bar> \<le> \<bar>A\<bar> + \<bar>p\<bar>" by linarith
    from scaled_le [OF u0 this] uA up show ?thesis by (simp add: algebra_simps)
  qed
  have b4: "u * \<bar>q - A\<bar> \<le> 2 * U1 + 4 * U2 + 4 * U3 + 640 * u"
  proof -
    have "\<bar>q - A\<bar> \<le> \<bar>A\<bar> + \<bar>q\<bar>" by linarith
    from scaled_le [OF u0 this] uA uq show ?thesis by (simp add: algebra_simps)
  qed
  have "\<bar>ys + ym - 640\<bar> \<le> 4 * U1 + 12 * U2 + 10 * U3 + 1920 * u + 4 * eta"
    using ep eq em es b1 b2 b3 b4 by linarith
  also have "\<dots> \<le> 12 * u * (\<bar>k * y\<bar> + \<bar>k * n\<bar> + 160 + eta) + 4 * eta"
    using U(1-3) by (simp add: U1_def U2_def U3_def algebra_simps)
  finally show ?thesis .
qed

lemma getBounds_fl_coordinateSystem [simp]:
  "getBounds_fl rnd (g\<lparr>coordinateSystem := cs\<rparr>) = getBounds_fl rnd g"
  by (simp add: getBounds_fl_def all_points_fl_def)

text \<open>
  C8, as the code has it. For every rounding of the kind of binary64 with unit roundoff
  \<open>u \<le> 1\<close> and absolute error \<open>eta\<close>, every scene and every point whose projected
  vertical coordinate is finite under \<open>"screen"\<close> and under \<open>"math"\<close>: the horizontal
  coordinate is the same under both, and the two vertical coordinates add up to
  \<open>S = 640\<close> within \<open>12 u (|k y| + |k c| + 160 + eta) + 4 eta\<close>, for the scale factor
  \<open>k\<close>, the ordinate \<open>y\<close> of the point and the ordinate \<open>c\<close> of the centre of the
  bounding box. The vertical coordinates are not finite when the scale factor is not.
\<close>

theorem mirror_symmetry_rounded:
  assumes R: "rounding u eta rnd" and u1: "u \<le> 1"
    and finS: "is_fin (point_y (projectPoint_fl rnd p
                 (scene_matrix_fl rnd (g\<lparr>coordinateSystem := Screen\<rparr>))))"
    and finM: "is_fin (point_y (projectPoint_fl rnd p
                 (scene_matrix_fl rnd (g\<lparr>coordinateSystem := Math\<rparr>))))"
  shows "point_x (projectPoint_fl rnd p (scene_matrix_fl rnd (g\<lparr>coordinateSystem := Screen\<rparr>))) =
           point_x (projectPoint_fl rnd p (scene_matrix_fl rnd (g\<lparr>coordinateSystem := Math\<rparr>)))
       \<and> \<bar>fin_value (point_y (projectPoint_fl rnd p
                 (scene_matrix_fl rnd (g\<lparr>coordinateSystem := Screen\<rparr>))))
          + fin_value (point_y (projectPoint_fl rnd p
                 (scene_matrix_fl rnd (g\<lparr>coordinateSystem := Math\<rparr>))))
          - 640\<bar>
         \<le> mirror_tolerance u eta
              (fin_value (scale_factor_fl rnd (getBounds_fl rnd g)))
              (fin_value (point_y p))
              (fin_value (centre_y_fl rnd (getBounds_fl rnd g)))"
proof -
  let ?b = "getBounds_fl rnd g"
  have mS: "scene_matrix_fl rnd (g\<lparr>coordinateSystem := Screen\<rparr>) = getProjectionMatrix_fl rnd ?b Screen"
    and mM: "scene_matrix_fl rnd (g\<lparr>coordinateSystem := Math\<rparr>) = getProjectionMatrix_fl rnd ?b Math"
    by (simp_all add: scene_matrix_fl_eq)
  from finM finite_projection [OF R, of p ?b Math] obtain k cx cy px py where
    k: "scale_factor_fl rnd ?b = Fin k" and c: "centre_x_fl rnd ?b = Fin cx" "centre_y_fl rnd ?b = Fin cy"
    and p: "point_x p = Fin px" "point_y p = Fin py"
    unfolding mM by blast
  note cf = projection_closed_form [OF R k c p]
  from finS obtain ys where ys: "point_y (projectPoint_fl rnd p (getProjectionMatrix_fl rnd ?b Screen)) = Fin ys"
    unfolding mS by (auto simp: is_fin_iff)
  from finM obtain ym where ym: "point_y (projectPoint_fl rnd p (getProjectionMatrix_fl rnd ?b Math)) = Fin ym"
    unfolding mM by (auto simp: is_fin_iff)
  have eS: "fl_add rnd (rnd (- k * py)) (fl_add rnd (rnd (- k * (- cy))) (Fin 320)) = Fin ys"
    using ys unfolding cf(2) [of Screen] by simp
  have eM: "fl_add rnd (rnd (k * py)) (fl_add rnd (rnd (k * (- cy))) (Fin 320)) = Fin ym"
    using ym unfolding cf(2) [of Math] by simp
  from mirror_error [OF R u1 eM eS]
  have "\<bar>ys + ym - 640\<bar> \<le> mirror_tolerance u eta k py cy"
    by (simp add: mirror_tolerance_def abs_mult)
  moreover have "point_x (projectPoint_fl rnd p (getProjectionMatrix_fl rnd ?b Screen)) =
                 point_x (projectPoint_fl rnd p (getProjectionMatrix_fl rnd ?b Math))"
    by (simp add: cf(1))
  ultimately show ?thesis
    unfolding mS mM by (simp add: ys ym k c p)
qed

text \<open>
  The scene of the points \<open>(0, 0)\<close> and \<open>(3, 1)\<close> with the grid rounding: the point
  \<open>(3, 1)\<close> has the vertical coordinates \<open>232107/1024\<close> and \<open>423253/1024\<close>.
\<close>

theorem mirror_symmetry_rounded_witness:
  "rounding 0 (1 / 2048) grid_rounding \<and> (0::real) \<le> 1
   \<and> point_y (projectPoint_fl grid_rounding (xy (Fin 3) (Fin 1))
        (scene_matrix_fl grid_rounding ((graphics (wide_scene Math))\<lparr>coordinateSystem := Screen\<rparr>)))
      = Fin (232107 / 1024)
   \<and> point_y (projectPoint_fl grid_rounding (xy (Fin 3) (Fin 1))
        (scene_matrix_fl grid_rounding ((graphics (wide_scene Math))\<lparr>coordinateSystem := Math\<rparr>)))
      = Fin (423253 / 1024)
   \<and> point_x (projectPoint_fl grid_rounding (xy (Fin 3) (Fin 1))
        (scene_matrix_fl grid_rounding ((graphics (wide_scene Math))\<lparr>coordinateSystem := Screen\<rparr>)))
      = point_x (projectPoint_fl grid_rounding (xy (Fin 3) (Fin 1))
        (scene_matrix_fl grid_rounding ((graphics (wide_scene Math))\<lparr>coordinateSystem := Math\<rparr>)))
   \<and> \<bar>232107 / 1024 + 423253 / 1024 - 640 :: real\<bar>
       \<le> mirror_tolerance 0 (1 / 2048) (191147 / 1024) 1 (1 / 2)"
proof -
  let ?g = "graphics (wide_scene Math)"
  let ?p = "xy (Fin 3) (Fin 1)"
  have gM: "?g\<lparr>coordinateSystem := Math\<rparr> = graphics (wide_scene Math)"
    and gS: "?g\<lparr>coordinateSystem := Screen\<rparr> = graphics (wide_scene Screen)"
    by (simp_all add: scene_defs)
  have mM: "scene_matrix_fl grid_rounding (graphics (wide_scene Math)) =
     \<lparr>mat_a = Fin (191147 / 1024), mat_b = Fin 0, mat_c = Fin 0, mat_d = Fin (191147 / 1024),
      mat_e = Fin (40959 / 1024), mat_f = Fin (232106 / 1024)\<rparr>"
  proof -
    have cs: "coordinateSystem (graphics (wide_scene Math)) = Math" by (simp add: scene_defs)
    show ?thesis unfolding scene_matrix_fl_eq wide_bounds cs by (rule wide_matrix)
  qed
  have mS: "scene_matrix_fl grid_rounding (graphics (wide_scene Screen)) =
     \<lparr>mat_a = Fin (191147 / 1024), mat_b = Fin 0, mat_c = Fin 0, mat_d = Fin (- (191147 / 1024)),
      mat_e = Fin (40959 / 1024), mat_f = Fin (423254 / 1024)\<rparr>"
  proof -
    have cs: "coordinateSystem (graphics (wide_scene Screen)) = Screen" by (simp add: scene_defs)
    show ?thesis unfolding scene_matrix_fl_eq wide_bounds cs
      apply (simp add: getProjectionMatrix_fl_def wide_scale Let_def)
      apply (simp add: fl_defs DEFAULT_SVG_SIZE_def PADDING_def Let_def translate_def scale_def)
      done
  qed
  have yS: "point_y (projectPoint_fl grid_rounding ?p (scene_matrix_fl grid_rounding
              (?g\<lparr>coordinateSystem := Screen\<rparr>))) = Fin (232107 / 1024)"
    unfolding gS mS by (simp add: projectPoint_fl_def applyToPoint_fl_def xy_def grid_rounding_def)
  have yM: "point_y (projectPoint_fl grid_rounding ?p (scene_matrix_fl grid_rounding
              (?g\<lparr>coordinateSystem := Math\<rparr>))) = Fin (423253 / 1024)"
    unfolding gM mM by (simp add: projectPoint_fl_def applyToPoint_fl_def xy_def grid_rounding_def)
  have k: "scale_factor_fl grid_rounding (getBounds_fl grid_rounding ?g) = Fin (191147 / 1024)"
    by (simp add: wide_bounds wide_scale)
  have c: "centre_y_fl grid_rounding (getBounds_fl grid_rounding ?g) = Fin (1 / 2)"
    by (simp add: wide_bounds) (simp add: fl_defs)
  have u: "(0::real) \<le> 1" by simp
  from mirror_symmetry_rounded [OF grid_rounding_rounding u, of ?p ?g] yS yM
  have "point_x (projectPoint_fl grid_rounding ?p (scene_matrix_fl grid_rounding
              (?g\<lparr>coordinateSystem := Screen\<rparr>))) =
        point_x (projectPoint_fl grid_rounding ?p (scene_matrix_fl grid_rounding
              (?g\<lparr>coordinateSystem := Math\<rparr>)))
     \<and> \<bar>232107 / 1024 + 423253 / 1024 - 640 :: real\<bar>
         \<le> mirror_tolerance 0 (1 / 2048) (191147 / 1024) 1 (1 / 2)"
    by (simp add: k c xy_def)
  with grid_rounding_rounding yS yM show ?thesis by simp
qed

text \<open>
  C8 as stated fails at the scene of a single point: the two vertical coordinates are NaN
  and do not add up to 640.
\<close>

theorem mirror_symmetry_counterexample:
  "jadd (point_y (projectPoint (xy (Fin 0) (Fin 0))
            (scene_matrix (graphics (single_point_scene Screen)))))
        (point_y (projectPoint (xy (Fin 0) (Fin 0))
            (scene_matrix (graphics (single_point_scene Math))))) \<noteq> DEFAULT_SVG_SIZE"
  by (simp add: scene_defs bounds_defs matrix_defs project_defs)

section \<open>The scale factor and the extents\<close>

lemma ratio_bound:
  assumes R: "rounding u eta rnd" and t: "fl_div rnd (Fin 560) (Fin X) = Fin t" and X: "0 \<le> X"
  shows "0 \<le> t" and "t * X \<le> 560 * (1 + u) + eta * X" and "X \<noteq> 0" and "rnd (560 / X) = Fin t"
proof -
  from t show nz: "X \<noteq> 0" by (auto simp: signed_inf_def split: if_splits)
  with t show rt: "rnd (560 / X) = Fin t" by simp
  from nz X have pos: "0 < X" by simp
  then have "0 \<le> 560 / X" by simp
  from rounding_nonneg [OF R this] rt show "0 \<le> t" by simp
  from rounding_repr(2) [OF R rt] have "t \<le> 560 / X + u * (560 / X) + eta"
    using pos by (simp add: abs_le_iff)
  then have "t * X \<le> (560 / X + u * (560 / X) + eta) * X"
    using pos by (intro mult_right_mono) simp_all
  also have "\<dots> = 560 * (1 + u) + eta * X" using pos by (simp add: field_simps)
  finally show "t * X \<le> 560 * (1 + u) + eta * X" .
qed

lemma other_extent:
  assumes R: "rounding u eta rnd"
    and X: "fl_div rnd (Fin 560) (Fin X) = Fin k" "0 \<le> X"
    and Y: "0 \<le> Y"
    and rY: "fl_div rnd (Fin 560) (Fin Y) = PInf
             \<or> (\<exists>s. fl_div rnd (Fin 560) (Fin Y) = Fin s \<and> k \<le> s)"
  shows "k * Y \<le> 560 * (1 + u) + eta * Y"
proof -
  from R have u0: "0 \<le> u" and e0: "0 \<le> eta" by (simp_all add: rounding_def)
  note bX = ratio_bound [OF R X]
  from rY show ?thesis
  proof
    assume inf: "fl_div rnd (Fin 560) (Fin Y) = PInf"
    show ?thesis
    proof (cases "Y = 0")
      case True
      then show ?thesis using u0 by simp
    next
      case False
      with Y have pos: "0 < Y" by simp
      from inf False have rY: "rnd (560 / Y) = PInf" by simp
      have "\<not> 560 / Y \<le> 560 / X"
      proof
        assume "560 / Y \<le> 560 / X"
        from rounding_mono [OF R this] show False by (simp add: rY bX(4))
      qed
      then have lt: "560 / X \<le> 560 / Y" by simp
      from rounding_repr(2) [OF R bX(4)] have "k \<le> 560 / X + u * (560 / X) + eta"
        using X bX(3) by (simp add: abs_le_iff)
      moreover have "u * (560 / X) \<le> u * (560 / Y)" using lt u0 by (rule mult_left_mono)
      ultimately have "k \<le> 560 / Y + u * (560 / Y) + eta" using lt by linarith
      then have "k * Y \<le> (560 / Y + u * (560 / Y) + eta) * Y"
        using pos by (intro mult_right_mono) simp_all
      also have "\<dots> = 560 * (1 + u) + eta * Y" using pos by (simp add: field_simps)
      finally show ?thesis .
    qed
  next
    assume "\<exists>s. fl_div rnd (Fin 560) (Fin Y) = Fin s \<and> k \<le> s"
    then obtain s where s: "fl_div rnd (Fin 560) (Fin Y) = Fin s" and ks: "k \<le> s" by blast
    from ks Y have "k * Y \<le> s * Y" by (rule mult_right_mono)
    with ratio_bound(2) [OF R s Y] show ?thesis by linarith
  qed
qed

lemma scale_times_extent:
  assumes R: "rounding u eta rnd"
    and k: "scale_factor_fl rnd b = Fin k"
    and w: "bounds_width_fl rnd b = Fin w" "0 \<le> w"
    and h: "bounds_height_fl rnd b = Fin h" "0 \<le> h"
  shows "0 \<le> k" and "k * w \<le> 560 * (1 + u) + eta * w" and "k * h \<le> 560 * (1 + u) + eta * h"
proof -
  from k have "math_min (fl_div rnd (Fin 560) (Fin w)) (fl_div rnd (Fin 560) (Fin h)) = Fin k"
    by (simp add: scale_factor_fl_def inner_size [OF R] w h)
  from math_min_cases [OF this]
  consider (W) "fl_div rnd (Fin 560) (Fin w) = Fin k"
      "fl_div rnd (Fin 560) (Fin h) = PInf \<or> (\<exists>s. fl_div rnd (Fin 560) (Fin h) = Fin s \<and> k \<le> s)"
    | (H) "fl_div rnd (Fin 560) (Fin h) = Fin k"
      "fl_div rnd (Fin 560) (Fin w) = PInf \<or> (\<exists>s. fl_div rnd (Fin 560) (Fin w) = Fin s \<and> k \<le> s)"
    by blast
  then have "0 \<le> k \<and> k * w \<le> 560 * (1 + u) + eta * w \<and> k * h \<le> 560 * (1 + u) + eta * h"
  proof cases
    case W
    from ratio_bound(1,2) [OF R W(1) w(2)] other_extent [OF R W(1) w(2) h(2) W(2)]
    show ?thesis by simp
  next
    case H
    from ratio_bound(1,2) [OF R H(1) h(2)] other_extent [OF R H(1) h(2) w(2) H(2)]
    show ?thesis by simp
  qed
  then show "0 \<le> k" and "k * w \<le> 560 * (1 + u) + eta * w"
    and "k * h \<le> 560 * (1 + u) + eta * h"
    by simp_all
qed

section \<open>The fit up to rounding\<close>

lemma fit_axis:
  fixes lo hi v M k s u eta w hw c r :: real
  assumes R: "rounding u eta rnd" and u8: "u \<le> 1 / 8" and e1: "eta \<le> 1"
    and v: "lo \<le> v" "v \<le> hi" and M: "\<bar>lo\<bar> \<le> M" "\<bar>hi\<bar> \<le> M"
    and w: "rnd (hi - lo) = Fin w"
    and hw: "rnd (w / 2) = Fin hw"
    and c: "rnd (lo + hw) = Fin c"
    and k0: "0 \<le> k" and kw: "k * w \<le> 560 * (1 + u) + eta * w"
    and s: "s = k \<or> s = - k"
    and r: "fl_add rnd (rnd (s * v)) (fl_add rnd (rnd (s * (- c))) (Fin 320)) = Fin r"
  shows "\<bar>r - 320\<bar> \<le> 280 + fit_tolerance u eta k M"
proof -
  from R have u0: "0 \<le> u" and e0: "0 \<le> eta" by (simp_all add: rounding_def)
  from M have M0: "0 \<le> M" by linarith
  define uM where "uM = u * M"
  define ue where "ue = u * eta"
  define kM where "kM = k * M"
  define ke where "ke = k * eta"
  define ukM where "ukM = u * (k * M)"
  define uke where "uke = u * (k * eta)"
  define eM where "eM = eta * M"
  note atoms = uM_def ue_def kM_def ke_def ukM_def uke_def eM_def
  have pos: "0 \<le> uM" "0 \<le> ue" "0 \<le> kM" "0 \<le> ke" "0 \<le> ukM" "0 \<le> uke" "0 \<le> eM"
    using u0 e0 M0 k0 by (simp_all add: atoms)
  have eighth: "uM \<le> M / 8" "ue \<le> eta / 8" "ukM \<le> kM / 8" "uke \<le> ke / 8"
    "u * eM \<le> eM / 8" "u * u \<le> u / 8" "eta * eta \<le> eta"
  proof -
    have *: "u * x \<le> x / 8" if "0 \<le> x" for x :: real
      using mult_right_mono [OF u8 that] by simp
    show "uM \<le> M / 8" "ue \<le> eta / 8" "ukM \<le> kM / 8" "uke \<le> ke / 8"
      "u * eM \<le> eM / 8" "u * u \<le> u / 8"
      unfolding atoms using * [OF M0] * [OF e0] * [of "k * M"] * [of "k * eta"]
        * [of "eta * M"] * [OF u0] k0 M0 e0 by simp_all
    show "eta * eta \<le> eta" using mult_right_mono [OF e1 e0] by simp
  qed
  \<comment> \<open>the width\<close>
  have om: "0 \<le> hi - lo" "hi - lo \<le> 2 * M" using v M by linarith+
  from rounding_nonneg [OF R om(1)] w have w0: "0 \<le> w" by simp
  have F1: "\<bar>w - (hi - lo)\<bar> \<le> 2 * uM + eta"
  proof -
    have "u * \<bar>hi - lo\<bar> \<le> u * (2 * M)" using om by (intro scaled_le [OF u0]) simp
    with rounding_repr(2) [OF R w] show ?thesis by (simp add: uM_def)
  qed
  have F2: "w \<le> 9 / 4 * M + eta" using F1 om eighth(1) by linarith
  \<comment> \<open>half the width, the centre\<close>
  have F3: "\<bar>hw - w / 2\<bar> \<le> 9 / 8 * uM + ue / 2 + eta"
  proof -
    have "\<bar>w / 2\<bar> \<le> 9 / 8 * M + eta / 2" using F2 w0 by simp
    from scaled_le [OF u0 this] have "u * \<bar>w / 2\<bar> \<le> 9 / 8 * uM + ue / 2"
      by (simp add: atoms algebra_simps)
    with rounding_repr(2) [OF R hw] show ?thesis by linarith
  qed
  have F5: "\<bar>c - (lo + hw)\<bar> \<le> 145 / 64 * uM + 25 / 16 * ue + eta"
  proof -
    have "\<bar>lo + hw\<bar> \<le> 145 / 64 * M + 25 / 16 * eta"
      using F2 F3 w0 M eighth(1,2) by linarith
    from scaled_le [OF u0 this] have "u * \<bar>lo + hw\<bar> \<le> 145 / 64 * uM + 25 / 16 * ue"
      by (simp add: atoms algebra_simps)
    with rounding_repr(2) [OF R c] show ?thesis by linarith
  qed
  have F7: "\<bar>v - c\<bar> \<le> w / 2 + (6 * uM + 4 * eta)"
    using F1 F3 F5 v eighth(2) pos(2) by linarith
  have F10: "\<bar>c\<bar> \<le> 3 * M + 3 * eta"
    using F2 F3 F5 w0 M eighth(1,2) pos(1,2) e0 by linarith
  have vM: "\<bar>v\<bar> \<le> M" using v M by linarith
  \<comment> \<open>the scaled distance from the centre\<close>
  have F8: "eta * w \<le> 9 / 4 * eM + eta"
  proof -
    from scaled_le [OF e0 F2] have "eta * w \<le> 9 / 4 * eM + eta * eta"
      by (simp add: atoms algebra_simps)
    with eighth(7) show ?thesis by linarith
  qed
  have sabs: "\<bar>s * x\<bar> = k * \<bar>x\<bar>" for x
    using s k0 by (auto simp: abs_mult)
  have F9: "\<bar>s * (v - c)\<bar> \<le> 280 + 280 * u + 9 / 8 * eM + eta / 2 + 6 * ukM + 4 * ke"
  proof -
    from scaled_le [OF k0 F7] have "k * \<bar>v - c\<bar> \<le> k * w / 2 + 6 * ukM + 4 * ke"
      by (simp add: atoms algebra_simps)
    with kw F8 show ?thesis unfolding sabs by (simp add: algebra_simps)
  qed
  \<comment> \<open>the four roundings of the projection\<close>
  from fl_add_rnd_rnd_Fin [OF R r] obtain A B e where
    A: "rnd (s * v) = Fin A" and B: "rnd (s * (- c)) = Fin B"
    and e: "rnd (B + 320) = Fin e" and rr: "rnd (A + e) = Fin r"
    by blast
  have F11: "\<bar>A - s * v\<bar> \<le> ukM + eta"
  proof -
    from scaled_le [OF k0 vM] have "k * \<bar>v\<bar> \<le> kM" by (simp add: atoms)
    from scaled_le [OF u0 this] have "u * \<bar>s * v\<bar> \<le> ukM"
      unfolding sabs by (simp add: atoms)
    with rounding_repr(2) [OF R A] show ?thesis by linarith
  qed
  have kc: "k * \<bar>c\<bar> \<le> 3 * kM + 3 * ke"
    using scaled_le [OF k0 F10] by (simp add: atoms algebra_simps)
  have F12: "\<bar>B - s * (- c)\<bar> \<le> 3 * ukM + 3 * uke + eta"
  proof -
    from scaled_le [OF u0 kc] have "u * \<bar>s * (- c)\<bar> \<le> 3 * ukM + 3 * uke"
      unfolding sabs by (simp add: atoms algebra_simps)
    with rounding_repr(2) [OF R B] show ?thesis by linarith
  qed
  have bB: "\<bar>B\<bar> \<le> 27 / 8 * kM + 27 / 8 * ke + eta"
  proof -
    have "\<bar>s * (- c)\<bar> \<le> 3 * kM + 3 * ke" unfolding sabs using kc by simp
    with F12 eighth(3,4) show ?thesis by linarith
  qed
  have F13: "\<bar>e - (B + 320)\<bar> \<le> 27 / 8 * ukM + 27 / 8 * uke + ue + 320 * u + eta"
  proof -
    have "\<bar>B + 320\<bar> \<le> 27 / 8 * kM + 27 / 8 * ke + eta + 320" using bB by linarith
    from scaled_le [OF u0 this]
    have "u * \<bar>B + 320\<bar> \<le> 27 / 8 * ukM + 27 / 8 * uke + ue + 320 * u"
      by (simp add: atoms algebra_simps)
    with rounding_repr(2) [OF R e] show ?thesis by linarith
  qed
  have split: "A + e = s * (v - c) + 320 + (A - s * v) + (B - s * (- c)) + (e - (B + 320))"
    by (simp add: algebra_simps)
  have F14: "\<bar>r - (A + e)\<bar> \<le> 675 * u + 9 / 64 * eM + 2 * ukM + 5 * uke + 4 * ue + eta"
  proof -
    have "\<bar>A + e\<bar> \<le> 675 + 9 / 8 * eM + 2 * kM + 5 * ke + 4 * eta"
      unfolding split using F9 F11 F12 F13 eighth(2,3,4) u8 pos by linarith
    from scaled_le [OF u0 this]
    have "u * \<bar>A + e\<bar> \<le> 675 * u + 9 / 8 * (u * eM) + 2 * ukM + 5 * uke + 4 * ue"
      by (simp add: atoms algebra_simps)
    with rounding_repr(2) [OF R rr] eighth(5) show ?thesis by linarith
  qed
  have "\<bar>r - 320\<bar> \<le> 280 + (1280 * u + 16 * ukM + 16 * eM + 16 * ke + 16 * eta)"
    using split F9 F11 F12 F13 F14 eighth(2,4) pos by linarith
  also have "1280 * u + 16 * ukM + 16 * eM + 16 * ke + 16 * eta = fit_tolerance u eta k M"
    by (simp add: fit_tolerance_def atoms algebra_simps)
  finally show ?thesis .
qed

lemma getBounds_fl_finite:
  assumes "all_points_fl rnd g \<noteq> []" and "\<forall>p\<in>set (all_points_fl rnd g). fin_point p"
  shows "\<exists>x0 x1 y0 y1.
           getBounds_fl rnd g = \<lparr>minX = Fin x0, maxX = Fin x1, minY = Fin y0, maxY = Fin y1\<rparr>
           \<and> x0 \<le> x1 \<and> y0 \<le> y1
           \<and> (\<forall>p\<in>set (all_points_fl rnd g). \<exists>px py. point_x p = Fin px \<and> point_y p = Fin py
                  \<and> x0 \<le> px \<and> px \<le> x1 \<and> y0 \<le> py \<and> py \<le> y1)"
proof -
  from assms(1) obtain p ps where ps: "all_points_fl rnd g = p # ps"
    by (cases "all_points_fl rnd g") auto
  with assms(2) obtain px py where p: "point_x p = Fin px" "point_y p = Fin py"
    by (auto simp: fin_point_iff)
  from assms(2) ps have rest: "\<forall>q\<in>set ps. fin_point q" by simp
  from foldl_extend_bounds [OF rest, of px px py py]
  obtain x0 x1 y0 y1 where
    f: "foldl extend_bounds \<lparr>minX = Fin px, maxX = Fin px, minY = Fin py, maxY = Fin py\<rparr> ps =
        \<lparr>minX = Fin x0, maxX = Fin x1, minY = Fin y0, maxY = Fin y1\<rparr>"
    and le: "x0 \<le> px" "px \<le> x1" "y0 \<le> py" "py \<le> y1"
    and inside: "\<forall>q\<in>set ps. \<exists>qx qy. point_x q = Fin qx \<and> point_y q = Fin qy
                  \<and> x0 \<le> qx \<and> qx \<le> x1 \<and> y0 \<le> qy \<and> qy \<le> y1"
    by blast
  have "getBounds_fl rnd g = \<lparr>minX = Fin x0, maxX = Fin x1, minY = Fin y0, maxY = Fin y1\<rparr>"
    using f by (simp add: getBounds_fl_def ps extend_bounds_init [OF p])
  moreover have "x0 \<le> x1" "y0 \<le> y1" using le by simp_all
  moreover have "\<forall>q\<in>set (all_points_fl rnd g). \<exists>qx qy. point_x q = Fin qx \<and> point_y q = Fin qy
                  \<and> x0 \<le> qx \<and> qx \<le> x1 \<and> y0 \<le> qy \<and> qy \<le> y1"
    using inside p le by (simp add: ps)
  ultimately show ?thesis by blast
qed

lemma near_padded_canvas_Fin:
  "\<bar>r - 320\<bar> \<le> 280 + t \<Longrightarrow> near_padded_canvas t (Fin r)"
  by (simp add: near_padded_canvas_def abs_le_iff)

text \<open>A point of a finite box, projected to finite coordinates, lands near the padded canvas.\<close>

lemma project_near:
  fixes b :: Bounds
  assumes R: "rounding u eta rnd" and u8: "u \<le> 1 / 8" and e1: "eta \<le> 1"
    and b: "b = \<lparr>minX = Fin x0, maxX = Fin x1, minY = Fin y0, maxY = Fin y1\<rparr>"
    and p: "point_x p = Fin px" "point_y p = Fin py"
    and ins: "x0 \<le> px" "px \<le> x1" "y0 \<le> py" "py \<le> y1"
    and fx: "is_fin (point_x (projectPoint_fl rnd p (getProjectionMatrix_fl rnd b cs)))"
    and fy: "is_fin (point_y (projectPoint_fl rnd p (getProjectionMatrix_fl rnd b cs)))"
  shows "near_padded_canvas
           (fit_tolerance u eta (fin_value (scale_factor_fl rnd b)) (bounds_magnitude b))
           (point_x (projectPoint_fl rnd p (getProjectionMatrix_fl rnd b cs)))
       \<and> near_padded_canvas
           (fit_tolerance u eta (fin_value (scale_factor_fl rnd b)) (bounds_magnitude b))
           (point_y (projectPoint_fl rnd p (getProjectionMatrix_fl rnd b cs)))"
proof -
  let ?m = "getProjectionMatrix_fl rnd b cs"
  from fx finite_projection [OF R, of p b cs] obtain k cx cy where
    k: "scale_factor_fl rnd b = Fin k" and c: "centre_x_fl rnd b = Fin cx" "centre_y_fl rnd b = Fin cy"
    by blast
  note cf = projection_closed_form [OF R k c p, of cs]
  \<comment> \<open>the extents and their halves are finite\<close>
  have wdef: "bounds_width_fl rnd b = rnd (x1 - x0)" and hdef: "bounds_height_fl rnd b = rnd (y1 - y0)"
    by (simp_all add: b bounds_width_fl_def bounds_height_fl_def fl_sub_def)
  from c(1) have "is_fin (fl_div rnd (rnd (x1 - x0)) (Fin 2))"
    using fl_add_fin [of rnd "minX b" "fl_div rnd (bounds_width_fl rnd b) (Fin 2)"]
    by (simp add: centre_x_fl_def wdef)
  then obtain w where w: "rnd (x1 - x0) = Fin w"
    by (cases "rnd (x1 - x0)") (simp_all add: signed_inf_def)
  from c(2) have "is_fin (fl_div rnd (rnd (y1 - y0)) (Fin 2))"
    using fl_add_fin [of rnd "minY b" "fl_div rnd (bounds_height_fl rnd b) (Fin 2)"]
    by (simp add: centre_y_fl_def hdef)
  then obtain h where h: "rnd (y1 - y0) = Fin h"
    by (cases "rnd (y1 - y0)") (simp_all add: signed_inf_def)
  have "fl_add rnd (Fin x0) (fl_div rnd (Fin w) (Fin 2)) = Fin cx"
    using c(1) unfolding centre_x_fl_def wdef w by (simp add: b)
  then obtain hw where hw: "rnd (w / 2) = Fin hw" and cx: "rnd (x0 + hw) = Fin cx"
    by (cases "rnd (w / 2)") simp_all
  have "fl_add rnd (Fin y0) (fl_div rnd (Fin h) (Fin 2)) = Fin cy"
    using c(2) unfolding centre_y_fl_def hdef h by (simp add: b)
  then obtain hh where hh: "rnd (h / 2) = Fin hh" and cy: "rnd (y0 + hh) = Fin cy"
    by (cases "rnd (h / 2)") simp_all
  have w0: "0 \<le> w" using rounding_nonneg [OF R, of "x1 - x0"] ins w by simp
  have h0: "0 \<le> h" using rounding_nonneg [OF R, of "y1 - y0"] ins h by simp
  note ke = scale_times_extent [OF R k _ w0 _ h0, unfolded wdef hdef, OF w h]
  \<comment> \<open>the magnitude of the box\<close>
  define M where "M = bounds_magnitude b"
  have M: "\<bar>x0\<bar> \<le> M" "\<bar>x1\<bar> \<le> M" "\<bar>y0\<bar> \<le> M" "\<bar>y1\<bar> \<le> M"
    unfolding M_def bounds_magnitude_def b by simp_all linarith+
  from fx obtain rx where rx: "point_x (projectPoint_fl rnd p ?m) = Fin rx"
    by (auto simp: is_fin_iff)
  from fy obtain ry where ry: "point_y (projectPoint_fl rnd p ?m) = Fin ry"
    by (auto simp: is_fin_iff)
  have "\<bar>rx - 320\<bar> \<le> 280 + fit_tolerance u eta k M"
    by (rule fit_axis [OF R u8 e1 ins(1,2) M(1,2) w hw cx ke(1,2), of k])
      (simp, use rx cf(1) in simp)
  moreover have "\<bar>ry - 320\<bar> \<le> 280 + fit_tolerance u eta k M"
    by (rule fit_axis [OF R u8 e1 ins(3,4) M(3,4) h hh cy ke(1,3),
          of "if cs = Screen then - k else k"])
      (simp, use ry cf(2) in simp)
  ultimately show ?thesis
    by (simp add: rx ry k M_def near_padded_canvas_Fin)
qed

text \<open>
  C6, as the code has it. For every rounding of the kind of binary64 with unit roundoff
  \<open>u \<le> 1/8\<close> and absolute error \<open>eta \<le> 1\<close>, and every scene with a primitive, all of
  whose combined points have finite coordinates: each corner of the bounding box, and
  each point of the combined point set (the extremal points of every primitive), whose
  projected coordinates are finite is projected into \<open>[P - t, S - P + t] = [40 - t, 600 + t]\<close>
  on both axes, with the tolerance \<open>t = 16 (u (k M + 80) + eta (k + M + 1))\<close> for the
  scale factor \<open>k\<close> and the largest magnitude \<open>M\<close> of a coordinate of the bounding box.
  The projected coordinates are not finite when the scale factor is not, as for a box of
  zero width and zero height.
\<close>

theorem fit_within_tolerance:
  assumes R: "rounding u eta rnd" and u8: "u \<le> 1 / 8" and e1: "eta \<le> 1"
    and ne: "all_points_fl rnd g \<noteq> []"
    and fin: "\<forall>q\<in>set (all_points_fl rnd g). fin_point q"
    and p: "p \<in> set (bounds_corners (getBounds_fl rnd g) @ all_points_fl rnd g)"
    and fx: "is_fin (point_x (projectPoint_fl rnd p (scene_matrix_fl rnd g)))"
    and fy: "is_fin (point_y (projectPoint_fl rnd p (scene_matrix_fl rnd g)))"
  shows "near_padded_canvas
           (fit_tolerance u eta (fin_value (scale_factor_fl rnd (getBounds_fl rnd g)))
              (bounds_magnitude (getBounds_fl rnd g)))
           (point_x (projectPoint_fl rnd p (scene_matrix_fl rnd g)))
       \<and> near_padded_canvas
           (fit_tolerance u eta (fin_value (scale_factor_fl rnd (getBounds_fl rnd g)))
              (bounds_magnitude (getBounds_fl rnd g)))
           (point_y (projectPoint_fl rnd p (scene_matrix_fl rnd g)))"
proof -
  from getBounds_fl_finite [OF ne fin] obtain x0 x1 y0 y1 where
    b: "getBounds_fl rnd g = \<lparr>minX = Fin x0, maxX = Fin x1, minY = Fin y0, maxY = Fin y1\<rparr>"
    and ord: "x0 \<le> x1" "y0 \<le> y1"
    and inside: "\<forall>q\<in>set (all_points_fl rnd g). \<exists>px py. point_x q = Fin px \<and> point_y q = Fin py
                  \<and> x0 \<le> px \<and> px \<le> x1 \<and> y0 \<le> py \<and> py \<le> y1"
    by blast
  have "\<forall>q\<in>set (bounds_corners (getBounds_fl rnd g) @ all_points_fl rnd g).
          \<exists>px py. point_x q = Fin px \<and> point_y q = Fin py
            \<and> x0 \<le> px \<and> px \<le> x1 \<and> y0 \<le> py \<and> py \<le> y1"
    using inside ord by (auto simp: b bounds_corners_def xy_def)
  with p obtain px py where pp: "point_x p = Fin px" "point_y p = Fin py"
    and ins: "x0 \<le> px" "px \<le> x1" "y0 \<le> py" "py \<le> y1"
    by blast
  from project_near [OF R u8 e1 b pp ins] fx fy show ?thesis
    unfolding scene_matrix_fl_eq by blast
qed

text \<open>
  The scene of the points \<open>(0, 0)\<close> and \<open>(3, 1)\<close> with the grid rounding: the point
  \<open>(0, 0)\<close> is projected to the abscissa \<open>40959/1024\<close>, below \<open>P = 40\<close> and within the
  tolerance.
\<close>

theorem fit_within_tolerance_witness:
  "rounding 0 (1 / 2048) grid_rounding \<and> (0::real) \<le> 1 / 8 \<and> (1 / 2048 ::real) \<le> 1
   \<and> all_points_fl grid_rounding (graphics (wide_scene Math)) \<noteq> []
   \<and> list_all fin_point (all_points_fl grid_rounding (graphics (wide_scene Math)))
   \<and> xy (Fin 0) (Fin 0) \<in> set (all_points_fl grid_rounding (graphics (wide_scene Math)))
   \<and> point_x (projectPoint_fl grid_rounding (xy (Fin 0) (Fin 0))
        (scene_matrix_fl grid_rounding (graphics (wide_scene Math)))) = Fin (40959 / 1024)
   \<and> point_y (projectPoint_fl grid_rounding (xy (Fin 0) (Fin 0))
        (scene_matrix_fl grid_rounding (graphics (wide_scene Math)))) = Fin (232106 / 1024)
   \<and> fit_tolerance 0 (1 / 2048)
        (fin_value (scale_factor_fl grid_rounding
           (getBounds_fl grid_rounding (graphics (wide_scene Math)))))
        (bounds_magnitude (getBounds_fl grid_rounding (graphics (wide_scene Math))))
      = 195243 / 131072
   \<and> near_padded_canvas (195243 / 131072) (Fin (40959 / 1024))
   \<and> near_padded_canvas (195243 / 131072) (Fin (232106 / 1024))"
proof -
  let ?g = "graphics (wide_scene Math)"
  let ?p = "xy (Fin 0) (Fin 0)"
  have pts: "all_points_fl grid_rounding ?g = [xy (Fin 0) (Fin 0), xy (Fin 3) (Fin 1)]"
    by (simp add: scene_defs all_points_fl_def or_empty_def)
  have ne: "all_points_fl grid_rounding ?g \<noteq> []" by (simp add: pts)
  have fin: "\<forall>q\<in>set (all_points_fl grid_rounding ?g). fin_point q"
    by (simp add: pts fin_point_def xy_def)
  have mem: "?p \<in> set (bounds_corners (getBounds_fl grid_rounding ?g) @ all_points_fl grid_rounding ?g)"
    by (simp add: pts)
  have m: "scene_matrix_fl grid_rounding ?g =
     \<lparr>mat_a = Fin (191147 / 1024), mat_b = Fin 0, mat_c = Fin 0, mat_d = Fin (191147 / 1024),
      mat_e = Fin (40959 / 1024), mat_f = Fin (232106 / 1024)\<rparr>"
  proof -
    have cs: "coordinateSystem (graphics (wide_scene Math)) = Math" by (simp add: scene_defs)
    show ?thesis unfolding scene_matrix_fl_eq wide_bounds cs by (rule wide_matrix)
  qed
  have x: "point_x (projectPoint_fl grid_rounding ?p (scene_matrix_fl grid_rounding ?g)) =
             Fin (40959 / 1024)"
    and y: "point_y (projectPoint_fl grid_rounding ?p (scene_matrix_fl grid_rounding ?g)) =
             Fin (232106 / 1024)"
    unfolding m by (simp_all add: projectPoint_fl_def applyToPoint_fl_def xy_def grid_rounding_def)
  have t: "fit_tolerance 0 (1 / 2048)
        (fin_value (scale_factor_fl grid_rounding (getBounds_fl grid_rounding ?g)))
        (bounds_magnitude (getBounds_fl grid_rounding ?g)) = 195243 / 131072"
    by (simp add: wide_bounds wide_scale fit_tolerance_def bounds_magnitude_def)
  from fit_within_tolerance [OF grid_rounding_rounding _ _ ne fin mem, unfolded x y t]
    grid_rounding_rounding ne fin x y t
  show ?thesis by (simp add: pts list_all_iff)
qed

text \<open>
  C6 as stated fails at the scene of a single point: the projected corner of its bounding
  box is NaN.
\<close>

theorem fit_invariant_counterexample:
  "\<not> in_padded_canvas (point_x (projectPoint
        (hd (bounds_corners (getBounds (graphics (single_point_scene Math)))))
        (scene_matrix (graphics (single_point_scene Math)))))"
  by (simp add: scene_defs bounds_defs matrix_defs project_defs bounds_corners_def
      in_padded_canvas_def)

end
